theory Spec2Isabelle
  imports Main "HOL-Library.Multiset"
begin

section \<open>Data model\<close>

text \<open>
  The service (\<^verbatim>\<open>ImageService\<close>) and the controller (\<^verbatim>\<open>ImageController\<close>) are embedded
  by explicit state passing.  Everything the code reaches through an SDK (the bucket of the
  object store and the \<^verbatim>\<open>image\<close> table behind the Prisma client) is part of a \<open>world\<close>;
  every external call is appended to a trace together with its outcome, so that the order and
  the number of external calls of an operation can be stated.
\<close>

type_synonym bytes = "char list"

text \<open>\<^verbatim>\<open>UploadResult\<close>: the row of the \<^verbatim>\<open>image\<close> table as the service returns it.
  \<open>createdAt\<close> is a time value in milliseconds.\<close>

record UploadResult =
  image_id :: int
  name :: string
  url :: string
  createdAt :: int

text \<open>The fields of \<^verbatim>\<open>Express.Multer.File\<close> that the service reads.\<close>

record multer_file =
  originalname :: string
  mimetype :: string
  buffer :: bytes

record blob_object =
  content :: bytes
  contentType :: string
  cacheControl :: string

text \<open>
  A JavaScript number as \<^verbatim>\<open>parseInt\<close> can return it: \<^verbatim>\<open>NaN\<close>, a double whose value is an
  integer, or an infinity (\<^verbatim>\<open>-0\<close> is not told apart from \<^verbatim>\<open>0\<close>).  The \<^verbatim>\<open>id\<close> the
  controller hands to the service is such a number; the ids of rows are integers.
\<close>

datatype number = NaN | Finite int | PlusInfinity | MinusInfinity

datatype order_field = by_id | by_createdAt

datatype sort_order = asc | desc

text \<open>The external calls of the two SDKs, with their arguments.\<close>

datatype ext_call =
    BlobSave string string bytes string string
  | BlobDelete string string
  | ImageCreate string string
  | ImageFindMany order_field sort_order
  | ImageFindUnique number
  | ImageDelete number

datatype outcome = Succeeded | Failed

text \<open>A JavaScript \<^verbatim>\<open>Error\<close> object, identified by its message.\<close>

datatype error = Error string

text \<open>\<^verbatim>\<open>process.env\<close>: the variables the service module reads.\<close>

record environment =
  GOOGLE_CLOUD_PROJECT :: "string option"
  GOOGLE_APPLICATION_CREDENTIALS :: "string option"
  GCS_BUCKET_NAME :: "string option"

record world =
  process_env :: environment
  blobs :: "(string \<times> string) \<rightharpoonup> blob_object"
  images :: "UploadResult list"
  nextId :: int
  trace :: "(ext_call \<times> outcome) list"

text \<open>
  What one request observes of its surroundings: the result of \<^verbatim>\<open>path.extname\<close>, the
  reading of \<^verbatim>\<open>Date.now()\<close>, the time the metadata store stamps on a new row, and which
  external calls throw (with the message of the error thrown): transport, authentication and
  quota failures of the object store, an unreachable metadata store.
\<close>

record env =
  extname :: "string \<Rightarrow> string"
  dateNow :: int
  dbNow :: int
  fault :: "ext_call \<Rightarrow> string option"

section \<open>External collaborators\<close>

definition log_call :: "ext_call \<Rightarrow> outcome \<Rightarrow> world \<Rightarrow> world" where
  "log_call c out w = w\<lparr>trace := trace w @ [(c, out)]\<rparr>"

text \<open>\<^verbatim>\<open>bucket.file(key).save(data, {contentType, metadata: {cacheControl}})\<close>: writes the
  object, replacing an object already stored under the key.\<close>

definition blob_save ::
  "env \<Rightarrow> string \<Rightarrow> string \<Rightarrow> bytes \<Rightarrow> string \<Rightarrow> string \<Rightarrow> world \<Rightarrow> (error + unit) \<times> world" where
  "blob_save e bucket key data ct cc w =
     (let c = BlobSave bucket key data ct cc in
      case fault e c of
        Some m \<Rightarrow> (Inl (Error m), log_call c Failed w)
      | None \<Rightarrow>
          (Inr (),
           log_call c Succeeded
             (w\<lparr>blobs := (blobs w)((bucket, key) \<mapsto>
                  \<lparr>content = data, contentType = ct, cacheControl = cc\<rparr>)\<rparr>)))"

text \<open>\<^verbatim>\<open>bucket.file(key).delete()\<close>: throws when the store fails and when there is no
  object under the key.\<close>

definition blob_delete :: "env \<Rightarrow> string \<Rightarrow> string \<Rightarrow> world \<Rightarrow> (error + unit) \<times> world" where
  "blob_delete e bucket key w =
     (let c = BlobDelete bucket key in
      case fault e c of
        Some m \<Rightarrow> (Inl (Error m), log_call c Failed w)
      | None \<Rightarrow>
          (case blobs w (bucket, key) of
             None \<Rightarrow> (Inl (Error ''No such object''), log_call c Failed w)
           | Some _ \<Rightarrow>
               (Inr (), log_call c Succeeded (w\<lparr>blobs := (blobs w)((bucket, key) := None)\<rparr>))))"

text \<open>
  Modelled from the spec: the metadata store (the Prisma client module and the schema of the
  \<^verbatim>\<open>image\<close> table are not among the sources).  A create appends one row whose \<open>id\<close> and
  \<open>createdAt\<close> the store assigns; a read returns rows and changes nothing; a delete removes
  the row of the given id and throws when there is none.  The table is kept in insertion
  order.  A row is found by an id when the id is the number of the row's id; an id that the
  store refuses to look up is one of the failures of the environment.
\<close>

definition prisma_image_create ::
  "env \<Rightarrow> string \<Rightarrow> string \<Rightarrow> world \<Rightarrow> (error + UploadResult) \<times> world" where
  "prisma_image_create e nm u w =
     (let c = ImageCreate nm u in
      case fault e c of
        Some m \<Rightarrow> (Inl (Error m), log_call c Failed w)
      | None \<Rightarrow>
          (let r = \<lparr>image_id = nextId w, name = nm, url = u, createdAt = dbNow e\<rparr>
           in (Inr r, log_call c Succeeded (w\<lparr>images := images w @ [r], nextId := nextId w + 1\<rparr>))))"

definition order_key :: "order_field \<Rightarrow> sort_order \<Rightarrow> UploadResult \<Rightarrow> int" where
  "order_key f ord r =
     (let v = (case f of by_id \<Rightarrow> image_id r | by_createdAt \<Rightarrow> createdAt r)
      in case ord of asc \<Rightarrow> v | desc \<Rightarrow> - v)"

text \<open>
  Modelled from the spec: \<^verbatim>\<open>findMany({orderBy: {field: order}})\<close> of the metadata store, which
  does the sorting and is not among the sources.  It returns all rows ordered by the field.
  Rows that agree on the field stay in insertion order here; the store itself leaves their
  order open.
\<close>

definition prisma_image_findMany ::
  "env \<Rightarrow> order_field \<Rightarrow> sort_order \<Rightarrow> world \<Rightarrow> (error + UploadResult list) \<times> world" where
  "prisma_image_findMany e f ord w =
     (let c = ImageFindMany f ord in
      case fault e c of
        Some m \<Rightarrow> (Inl (Error m), log_call c Failed w)
      | None \<Rightarrow> (Inr (sort_key (order_key f ord) (images w)), log_call c Succeeded w))"

definition prisma_image_findUnique ::
  "env \<Rightarrow> number \<Rightarrow> world \<Rightarrow> (error + UploadResult option) \<times> world" where
  "prisma_image_findUnique e i w =
     (let c = ImageFindUnique i in
      case fault e c of
        Some m \<Rightarrow> (Inl (Error m), log_call c Failed w)
      | None \<Rightarrow> (Inr (find (\<lambda>r. Finite (image_id r) = i) (images w)), log_call c Succeeded w))"

definition prisma_image_delete :: "env \<Rightarrow> number \<Rightarrow> world \<Rightarrow> (error + unit) \<times> world" where
  "prisma_image_delete e i w =
     (let c = ImageDelete i in
      case fault e c of
        Some m \<Rightarrow> (Inl (Error m), log_call c Failed w)
      | None \<Rightarrow>
          (case find (\<lambda>r. Finite (image_id r) = i) (images w) of
             None \<Rightarrow> (Inl (Error ''Record to delete does not exist.''), log_call c Failed w)
           | Some _ \<Rightarrow>
               (Inr (),
                log_call c Succeeded
                  (w\<lparr>images := filter (\<lambda>r. Finite (image_id r) \<noteq> i) (images w)\<rparr>))))"

section \<open>String helpers of the runtime\<close>

text \<open>The template literal \<^verbatim>\<open>`${Date.now()}...`\<close> writes the time value in decimal, with
  a leading minus sign when it is negative (a time value is an integer of magnitude at most
  8.64e15, far below the 1e21 where JavaScript switches to exponent notation).\<close>

definition digit_char :: "nat \<Rightarrow> char" where
  "digit_char d = ''0123456789'' ! d"

fun digits :: "nat \<Rightarrow> string" where
  "digits n = (if n < 10 then [digit_char n] else digits (n div 10) @ [digit_char (n mod 10)])"

definition Number_toString :: "int \<Rightarrow> string" where
  "Number_toString n = (if n < 0 then CHR ''-'' # digits (nat (- n)) else digits (nat n))"

text \<open>\<^verbatim>\<open>s.split(sep)\<close> for a one-character separator: never the empty array.\<close>

fun split :: "char \<Rightarrow> string \<Rightarrow> string list" where
  "split sep [] = [] # []"
| "split sep (c # cs) =
     (if c = sep then [] # split sep cs
      else (case split sep cs of [] \<Rightarrow> [c] # [] | x # xs \<Rightarrow> (c # x) # xs))"

text \<open>\<^verbatim>\<open>Array.prototype.pop\<close>: the last element, \<^verbatim>\<open>undefined\<close> on the empty array.\<close>

definition pop :: "'a list \<Rightarrow> 'a option" where
  "pop xs = (if xs = [] then None else Some (last xs))"

section \<open>The service\<close>

text \<open>Module initialisation: the storage client is built from the project id and the key
  file name; the bucket name is not read.\<close>

record storage_client =
  projectId :: "string option"
  keyFilename :: "string option"

definition storage :: "environment \<Rightarrow> error + storage_client" where
  "storage pe =
     Inr \<lparr>projectId = GOOGLE_CLOUD_PROJECT pe, keyFilename = GOOGLE_APPLICATION_CREDENTIALS pe\<rparr>"

text \<open>\<^verbatim>\<open>getBucket\<close>: \<^verbatim>\<open>!bucketName\<close> holds for an unset variable and for the empty
  string.  The bucket handle is identified with its name.\<close>

definition getBucket :: "world \<Rightarrow> error + string" where
  "getBucket w =
     (case GCS_BUCKET_NAME (process_env w) of
        None \<Rightarrow> Inl (Error ''GCS_BUCKET_NAME environment variable is not set'')
      | Some bucketName \<Rightarrow>
          if bucketName = [] then Inl (Error ''GCS_BUCKET_NAME environment variable is not set'')
          else Inr bucketName)"

text \<open>\<^verbatim>\<open>try { ... } catch (error) { console.error(...); throw new Error(msg) }\<close>: whatever
  the body throws is replaced by the one error of the operation (the line written to the
  console is not part of the model).\<close>

definition catch_rethrow :: "string \<Rightarrow> (error + 'a) \<times> world \<Rightarrow> (error + 'a) \<times> world" where
  "catch_rethrow msg r = (case r of (Inl _, w) \<Rightarrow> (Inl (Error msg), w) | (Inr v, w) \<Rightarrow> (Inr v, w))"

definition fileName_of :: "env \<Rightarrow> multer_file \<Rightarrow> string" where
  "fileName_of e file = Number_toString (dateNow e) @ extname e (originalname file)"

definition publicUrl_of :: "string \<Rightarrow> string \<Rightarrow> string" where
  "publicUrl_of bucket_name blob_name =
     ''https://storage.googleapis.com/'' @ bucket_name @ ''/'' @ blob_name"

definition uploadImage_body :: "env \<Rightarrow> multer_file \<Rightarrow> world \<Rightarrow> (error + UploadResult) \<times> world" where
  "uploadImage_body e file w =
     (case getBucket w of
        Inl err \<Rightarrow> (Inl err, w)
      | Inr bucket \<Rightarrow>
          (let fileName = fileName_of e file in
           case blob_save e bucket fileName (buffer file) (mimetype file)
                  ''public, max-age=31536000'' w of
             (Inl err, w1) \<Rightarrow> (Inl err, w1)
           | (Inr _, w1) \<Rightarrow>
               (let publicUrl = publicUrl_of bucket fileName
                in prisma_image_create e (originalname file) publicUrl w1)))"

definition ImageService_uploadImage ::
  "env \<Rightarrow> multer_file \<Rightarrow> world \<Rightarrow> (error + UploadResult) \<times> world" where
  "ImageService_uploadImage e file w = catch_rethrow ''Failed to upload image'' (uploadImage_body e file w)"

definition ImageService_getAllImages :: "env \<Rightarrow> world \<Rightarrow> (error + UploadResult list) \<times> world" where
  "ImageService_getAllImages e w =
     catch_rethrow ''Failed to fetch images'' (prisma_image_findMany e by_createdAt desc w)"

definition ImageService_getImageById ::
  "env \<Rightarrow> number \<Rightarrow> world \<Rightarrow> (error + UploadResult option) \<times> world" where
  "ImageService_getImageById e i w =
     catch_rethrow ''Failed to fetch image'' (prisma_image_findUnique e i w)"

definition deleteImage_body :: "env \<Rightarrow> number \<Rightarrow> world \<Rightarrow> (error + unit) \<times> world" where
  "deleteImage_body e i w =
     (case getBucket w of
        Inl err \<Rightarrow> (Inl err, w)
      | Inr bucket \<Rightarrow>
          (case prisma_image_findUnique e i w of
             (Inl err, w1) \<Rightarrow> (Inl err, w1)
           | (Inr None, w1) \<Rightarrow> (Inl (Error ''Image not found''), w1)
           | (Inr (Some img), w1) \<Rightarrow>
               (case (case pop (split CHR ''/'' (url img)) of
                        None \<Rightarrow> (Inr (), w1)
                      | Some fileName \<Rightarrow>
                          if fileName \<noteq> [] then blob_delete e bucket fileName w1
                          else (Inr (), w1)) of
                  (Inl err, w2) \<Rightarrow> (Inl err, w2)
                | (Inr _, w2) \<Rightarrow> prisma_image_delete e i w2)))"

definition ImageService_deleteImage :: "env \<Rightarrow> number \<Rightarrow> world \<Rightarrow> (error + unit) \<times> world" where
  "ImageService_deleteImage e i w = catch_rethrow ''Failed to delete image'' (deleteImage_body e i w)"

section \<open>The controller\<close>

text \<open>
  \<^verbatim>\<open>parseInt(string)\<close> with no radix, after ECMAScript: leading white space is dropped, a
  sign is read, a prefix \<^verbatim>\<open>0x\<close> or \<^verbatim>\<open>0X\<close> selects radix 16, and the longest run of
  digits of the radix is the number; without a digit the result is \<^verbatim>\<open>NaN\<close>.  The result
  is a double: the integer the digits spell, rounded as the runtime rounds it, to the
  nearest double with ties to the even significand, and an infinity from
  \<open>2^1024 - 2^970\<close> on.  A \<open>char\<close> is a code unit
  below 256, so the white space characters are tab, line feed, vertical tab, form feed,
  carriage return, space and no-break space.
\<close>

definition StrWhiteSpaceChar :: "char \<Rightarrow> bool" where
  "StrWhiteSpaceChar c = (of_char c \<in> {9, 10, 11, 12, 13, 32, 160 :: nat})"

definition digit_value :: "char \<Rightarrow> nat option" where
  "digit_value c =
     (let k = (of_char c :: nat) in
      if 48 \<le> k \<and> k \<le> 57 then Some (k - 48)
      else if 97 \<le> k \<and> k \<le> 122 then Some (k - 87)
      else if 65 \<le> k \<and> k \<le> 90 then Some (k - 55)
      else None)"

definition radix_digit :: "nat \<Rightarrow> char \<Rightarrow> bool" where
  "radix_digit R c = (case digit_value c of None \<Rightarrow> False | Some v \<Rightarrow> v < R)"

definition radix_value :: "nat \<Rightarrow> string \<Rightarrow> nat" where
  "radix_value R Z = foldl (\<lambda>a c. a * R + the (digit_value c)) 0 Z"

text \<open>The number of binary digits of a natural number.\<close>

fun bit_length :: "nat \<Rightarrow> nat" where
  "bit_length n = (if n = 0 then 0 else Suc (bit_length (n div 2)))"

text \<open>The nearest double of a natural number, \<open>None\<close> when it is beyond the largest double:
  below \<open>2^53\<close> the number itself, above it the 53 leading binary digits, rounded.\<close>

definition round_to_double :: "nat \<Rightarrow> nat option" where
  "round_to_double m =
     (if m < 2 ^ 53 then Some m
      else
        (let ex = bit_length m - 53;
             q = m div 2 ^ ex;
             r = m mod 2 ^ ex;
             half = 2 ^ (ex - 1);
             q' = (if half < r \<or> (r = half \<and> odd q) then q + 1 else q);
             v = q' * 2 ^ ex
         in if 2 ^ 1024 \<le> v then None else Some v))"

definition to_number :: "bool \<Rightarrow> nat \<Rightarrow> number" where
  "to_number negative m =
     (case round_to_double m of
        None \<Rightarrow> if negative then MinusInfinity else PlusInfinity
      | Some v \<Rightarrow> Finite (if negative then - int v else int v))"

text \<open>The steps of \<^verbatim>\<open>parseInt\<close> after the sign: radix prefix, digits, value.\<close>

definition parse_magnitude :: "bool \<Rightarrow> string \<Rightarrow> number" where
  "parse_magnitude negative S1 =
     (let stripPrefix = (2 \<le> length S1 \<and> (take 2 S1 = ''0x'' \<or> take 2 S1 = ''0X''));
          R = (if stripPrefix then 16 else 10);
          S2 = (if stripPrefix then drop 2 S1 else S1);
          Z = takeWhile (radix_digit R) S2
      in if Z = [] then NaN else to_number negative (radix_value R Z))"

definition parseInt :: "string \<Rightarrow> number" where
  "parseInt inputString =
     (let S = dropWhile StrWhiteSpaceChar inputString;
          negative = (S \<noteq> [] \<and> hd S = CHR ''-'');
          S1 = (if S \<noteq> [] \<and> (hd S = CHR ''+'' \<or> hd S = CHR ''-'') then tl S else S)
      in parse_magnitude negative S1)"

definition isNaN :: "number \<Rightarrow> bool" where
  "isNaN n = (n = NaN)"

text \<open>The JSON bodies the controller sends.\<close>

datatype json_body =
    error_body string
  | error_message_body string string
  | message_body string
  | message_image_body string UploadResult
  | image_body UploadResult
  | images_body "UploadResult list"

datatype response = Response nat json_body

text \<open>\<^verbatim>\<open>error instanceof Error ? error.message : 'Unknown error'\<close>: every error of the
  model is an \<^verbatim>\<open>Error\<close>.\<close>

fun message :: "error \<Rightarrow> string" where
  "message (Error m) = m"

definition ImageController_uploadImage ::
  "env \<Rightarrow> multer_file option \<Rightarrow> world \<Rightarrow> response \<times> world" where
  "ImageController_uploadImage e req_file w =
     (case req_file of
        None \<Rightarrow> (Response 400 (error_body ''No file uploaded''), w)
      | Some file \<Rightarrow>
          (case ImageService_uploadImage e file w of
             (Inr result, w1) \<Rightarrow> (Response 201 (message_image_body ''Upload successful'' result), w1)
           | (Inl err, w1) \<Rightarrow>
               (Response 500 (error_message_body ''Upload failed'' (message err)), w1)))"

definition ImageController_getAllImages :: "env \<Rightarrow> world \<Rightarrow> response \<times> world" where
  "ImageController_getAllImages e w =
     (case ImageService_getAllImages e w of
        (Inr imgs, w1) \<Rightarrow> (Response 200 (images_body imgs), w1)
      | (Inl err, w1) \<Rightarrow>
          (Response 500 (error_message_body ''Failed to fetch images'' (message err)), w1))"

definition ImageController_getImageById :: "env \<Rightarrow> string \<Rightarrow> world \<Rightarrow> response \<times> world" where
  "ImageController_getImageById e req_params_id w =
     (let i = parseInt req_params_id in
      if isNaN i then (Response 400 (error_body ''Invalid image ID''), w)
      else
        (case ImageService_getImageById e i w of
           (Inr None, w1) \<Rightarrow> (Response 404 (error_body ''Image not found''), w1)
         | (Inr (Some img), w1) \<Rightarrow> (Response 200 (image_body img), w1)
         | (Inl err, w1) \<Rightarrow>
             (Response 500 (error_message_body ''Failed to fetch image'' (message err)), w1)))"

definition ImageController_deleteImage :: "env \<Rightarrow> string \<Rightarrow> world \<Rightarrow> response \<times> world" where
  "ImageController_deleteImage e req_params_id w =
     (let i = parseInt req_params_id in
      if isNaN i then (Response 400 (error_body ''Invalid image ID''), w)
      else
        (case ImageService_deleteImage e i w of
           (Inr _, w1) \<Rightarrow> (Response 200 (message_body ''Image deleted successfully''), w1)
         | (Inl err, w1) \<Rightarrow>
             (Response 500 (error_message_body ''Failed to delete image'' (message err)), w1)))"

text \<open>The four routes of the router, each bound to its controller method.\<close>

datatype request =
    POST_upload "multer_file option"
  | GET_images
  | GET_image string
  | DELETE_image string

fun handle :: "env \<Rightarrow> request \<Rightarrow> world \<Rightarrow> response \<times> world" where
  "handle e (POST_upload req_file) w = ImageController_uploadImage e req_file w"
| "handle e GET_images w = ImageController_getAllImages e w"
| "handle e (GET_image p) w = ImageController_getImageById e p w"
| "handle e (DELETE_image p) w = ImageController_deleteImage e p w"

text \<open>The external calls an operation made: the part of the trace it appended.\<close>

definition calls_during :: "world \<Rightarrow> world \<Rightarrow> (ext_call \<times> outcome) list" where
  "calls_during w w' = drop (length (trace w)) (trace w')"

text \<open>
  What the propagation policy asks of one run of an operation, given the world before and the
  result with the world after: a failed external call makes the operation fail with its one
  error \<open>msg\<close>; the operation raises no other error; no external call is made twice; and no
  external call follows a failed one.
\<close>

definition resignalled_once :: "string \<Rightarrow> world \<Rightarrow> (error + 'a) \<times> world \<Rightarrow> bool" where
  "resignalled_once msg w R =
     (let cs = calls_during w (snd R) in
      (Failed \<in> set (map snd cs) \<longrightarrow> fst R = Inl (Error msg))
      \<and> (case fst R of Inl err \<Rightarrow> err = Error msg | Inr _ \<Rightarrow> True)
      \<and> distinct (map fst cs)
      \<and> Failed \<notin> set (map snd (butlast cs)))"

section \<open>Sample data\<close>

text \<open>A bucket \<^verbatim>\<open>bkt\<close>, one uploaded file \<^verbatim>\<open>cat.png\<close>, and the state after its upload.
  \<open>sample_extname\<close> agrees with \<^verbatim>\<open>path.extname\<close> on the file names used here.\<close>

definition sample_extname :: "string \<Rightarrow> string" where
  "sample_extname s = dropWhile (\<lambda>c. c \<noteq> CHR ''.'') s"

definition sample_env :: env where
  "sample_env =
     \<lparr>extname = sample_extname, dateNow = 1700000000000, dbNow = 1700000000123,
      fault = (\<lambda>_. None)\<rparr>"

definition sample_file :: multer_file where
  "sample_file = \<lparr>originalname = ''cat.png'', mimetype = ''image/png'', buffer = ''abc''\<rparr>"

definition other_file :: multer_file where
  "other_file = \<lparr>originalname = ''dog.png'', mimetype = ''image/png'', buffer = ''xyz''\<rparr>"

definition sample_image :: UploadResult where
  "sample_image =
     \<lparr>image_id = 1, name = ''cat.png'',
      url = ''https://storage.googleapis.com/bkt/1700000000000.png'',
      createdAt = 1700000000123\<rparr>"

definition sample_process_env :: environment where
  "sample_process_env =
     \<lparr>GOOGLE_CLOUD_PROJECT = Some ''proj'', GOOGLE_APPLICATION_CREDENTIALS = Some ''./key.json'',
      GCS_BUCKET_NAME = Some ''bkt''\<rparr>"

definition empty_world :: world where
  "empty_world =
     \<lparr>process_env = sample_process_env, blobs = Map.empty, images = [], nextId = 1, trace = []\<rparr>"

definition stored_world :: world where
  "stored_world =
     \<lparr>process_env = sample_process_env,
      blobs = [(''bkt'', ''1700000000000.png'') \<mapsto>
                 \<lparr>content = ''abc'', contentType = ''image/png'',
                  cacheControl = ''public, max-age=31536000''\<rparr>],
      images = [sample_image], nextId = 2, trace = []\<rparr>"

text \<open>The row is there, its blob is not.\<close>

definition dangling_world :: world where
  "dangling_world = stored_world\<lparr>blobs := Map.empty\<rparr>"

text \<open>No bucket name in the environment.\<close>

definition unconfigured_world :: world where
  "unconfigured_world =
     stored_world\<lparr>process_env := sample_process_env\<lparr>GCS_BUCKET_NAME := None\<rparr>\<rparr>"

text \<open>The object store answers every call with an error.\<close>

definition storage_down :: "ext_call \<Rightarrow> string option" where
  "storage_down c =
     (case c of
        BlobSave _ _ _ _ _ \<Rightarrow> Some ''503 Service Unavailable''
      | BlobDelete _ _ \<Rightarrow> Some ''503 Service Unavailable''
      | _ \<Rightarrow> None)"

definition storage_down_env :: env where
  "storage_down_env = sample_env\<lparr>fault := storage_down\<rparr>"

text \<open>Two later requests: the clocks have moved on.\<close>

definition later_env :: env where
  "later_env = sample_env\<lparr>dateNow := 1700000000001, dbNow := 1700000000200\<rparr>"

definition latest_env :: env where
  "latest_env = sample_env\<lparr>dateNow := 1700000000002, dbNow := 1700000000300\<rparr>"

text \<open>Two later requests whose rows the metadata store stamps with the millisecond of the
  first.\<close>

definition second_same_stamp_env :: env where
  "second_same_stamp_env = later_env\<lparr>dbNow := 1700000000123\<rparr>"

definition third_same_stamp_env :: env where
  "third_same_stamp_env = latest_env\<lparr>dbNow := 1700000000123\<rparr>"

text \<open>A second row beside the first.\<close>

definition second_image :: UploadResult where
  "second_image =
     \<lparr>image_id = 2, name = ''dog.png'',
      url = ''https://storage.googleapis.com/bkt/1700000000001.png'',
      createdAt = 1700000000200\<rparr>"

definition third_image :: UploadResult where
  "third_image =
     \<lparr>image_id = 3, name = ''cat.png'',
      url = ''https://storage.googleapis.com/bkt/1700000000002.png'',
      createdAt = 1700000000300\<rparr>"

definition two_world :: world where
  "two_world =
     stored_world
       \<lparr>blobs := (blobs stored_world)((''bkt'', ''1700000000001.png'') \<mapsto>
                   \<lparr>content = ''xyz'', contentType = ''image/png'',
                    cacheControl = ''public, max-age=31536000''\<rparr>),
        images := [sample_image, second_image], nextId := 3\<rparr>"

section \<open>Basic facts\<close>

lemmas ext_defs = blob_save_def blob_delete_def prisma_image_create_def prisma_image_findMany_def
  prisma_image_findUnique_def prisma_image_delete_def log_call_def Let_def

lemmas svc_defs = ImageService_uploadImage_def uploadImage_body_def ImageService_getAllImages_def
  ImageService_getImageById_def ImageService_deleteImage_def deleteImage_body_def catch_rethrow_def

lemmas ctl_defs = ImageController_uploadImage_def ImageController_getAllImages_def
  ImageController_getImageById_def ImageController_deleteImage_def

lemmas sample_defs = sample_env_def sample_file_def other_file_def sample_image_def
  empty_world_def stored_world_def dangling_world_def unconfigured_world_def
  storage_down_env_def storage_down_def sample_extname_def sample_process_env_def
  later_env_def latest_env_def second_image_def two_world_def
  second_same_stamp_env_def third_same_stamp_env_def

lemmas parseInt_defs = parseInt_def parse_magnitude_def to_number_def round_to_double_def
  isNaN_def StrWhiteSpaceChar_def radix_digit_def digit_value_def radix_value_def Let_def

lemma order_key_createdAt_desc: "order_key by_createdAt desc = (\<lambda>r. - createdAt r)"
  by (rule ext) (simp add: order_key_def)

lemma fileName_of_sample:
  "fileName_of sample_env sample_file = ''1700000000000.png''"
  "fileName_of storage_down_env sample_file = ''1700000000000.png''"
  by (simp_all add: fileName_of_def sample_defs Number_toString_def digit_char_def)

lemma getBucket_sample:
  "getBucket empty_world = Inr ''bkt''"
  "getBucket stored_world = Inr ''bkt''"
  "getBucket dangling_world = Inr ''bkt''"
  by (simp_all add: getBucket_def sample_defs)

section \<open>Upload: a failed blob write\<close>

text \<open>
  C2.  When the bucket is configured and the blob write of an upload fails, the upload fails
  with its one error, the \<open>image\<close> table and the id counter are as before, and the blob write
  is the only external call of the operation: the create of the metadata store is never
  invoked.
\<close>

theorem upload_blob_write_failure_creates_no_record:
  assumes "getBucket w = Inr bucket"
    and "fault e (BlobSave bucket (fileName_of e file) (buffer file) (mimetype file)
                    ''public, max-age=31536000'') = Some m"
  shows "fst (ImageService_uploadImage e file w) = Inl (Error ''Failed to upload image'')
       \<and> images (snd (ImageService_uploadImage e file w)) = images w
       \<and> nextId (snd (ImageService_uploadImage e file w)) = nextId w
       \<and> calls_during w (snd (ImageService_uploadImage e file w)) =
           [(BlobSave bucket (fileName_of e file) (buffer file) (mimetype file)
               ''public, max-age=31536000'', Failed)]"
  using assms by (simp add: svc_defs ext_defs calls_during_def)

theorem upload_blob_write_failure_witness:
  "getBucket empty_world = Inr ''bkt''
   \<and> fault storage_down_env
        (BlobSave ''bkt'' (fileName_of storage_down_env sample_file) (buffer sample_file)
           (mimetype sample_file) ''public, max-age=31536000'') = Some ''503 Service Unavailable''
   \<and> fst (ImageService_uploadImage storage_down_env sample_file empty_world) =
        Inl (Error ''Failed to upload image'')
   \<and> images (snd (ImageService_uploadImage storage_down_env sample_file empty_world)) = []
   \<and> calls_during empty_world
        (snd (ImageService_uploadImage storage_down_env sample_file empty_world)) =
        [(BlobSave ''bkt'' ''1700000000000.png'' ''abc'' ''image/png''
            ''public, max-age=31536000'', Failed)]"
proof -
  have h1: "getBucket empty_world = Inr ''bkt''"
    by (rule getBucket_sample)
  have h2: "fault storage_down_env
        (BlobSave ''bkt'' (fileName_of storage_down_env sample_file) (buffer sample_file)
           (mimetype sample_file) ''public, max-age=31536000'') = Some ''503 Service Unavailable''"
    by (simp add: storage_down_env_def storage_down_def)
  have h3: "images empty_world = []" "buffer sample_file = ''abc''"
    "mimetype sample_file = ''image/png''"
    by (simp_all add: empty_world_def sample_file_def)
  show ?thesis
    using upload_blob_write_failure_creates_no_record [OF h1 h2] h1 h2
    by (simp add: fileName_of_sample h3)
qed

section \<open>Delete: a failed blob deletion\<close>

text \<open>
  C1, as claimed, fails.  The row of id 1 exists and its blob deletion fails, once because
  the object store answers with an error and once because the blob is missing: each time the
  delete fails as a whole, the delete of the metadata store is not among the external calls,
  and the row is still there afterwards.
\<close>

theorem delete_after_blob_failure_counterexample:
  "find (\<lambda>r. image_id r = 1) (images stored_world) = Some sample_image
   \<and> fst (ImageService_deleteImage storage_down_env (Finite 1) stored_world) =
        Inl (Error ''Failed to delete image'')
   \<and> calls_during stored_world (snd (ImageService_deleteImage storage_down_env (Finite 1) stored_world)) =
        [(ImageFindUnique (Finite 1), Succeeded), (BlobDelete ''bkt'' ''1700000000000.png'', Failed)]
   \<and> find (\<lambda>r. image_id r = 1)
        (images (snd (ImageService_deleteImage storage_down_env (Finite 1) stored_world))) = Some sample_image
   \<and> calls_during dangling_world (snd (ImageService_deleteImage sample_env (Finite 1) dangling_world)) =
        [(ImageFindUnique (Finite 1), Succeeded), (BlobDelete ''bkt'' ''1700000000000.png'', Failed)]
   \<and> find (\<lambda>r. image_id r = 1)
        (images (snd (ImageService_deleteImage sample_env (Finite 1) dangling_world))) = Some sample_image"
  by (simp add: svc_defs ext_defs calls_during_def sample_defs getBucket_def pop_def)

text \<open>
  C1, amended.  For a delete of an existing row whose url has a non-empty last path segment:
  if the blob deletion fails (an error of the object store, or no blob under the key), the
  delete stops there.  It fails with its one error, the \<open>image\<close> table is unchanged, and
  the external calls are the lookup and the failed blob deletion only.
\<close>

theorem delete_blob_failure_keeps_record:
  assumes "getBucket w = Inr bucket"
    and "fault e (ImageFindUnique i) = None"
    and "find (\<lambda>r. Finite (image_id r) = i) (images w) = Some img"
    and "pop (split CHR ''/'' (url img)) = Some key" and "key \<noteq> []"
    and "fault e (BlobDelete bucket key) \<noteq> None \<or> blobs w (bucket, key) = None"
  shows "fst (ImageService_deleteImage e i w) = Inl (Error ''Failed to delete image'')
       \<and> images (snd (ImageService_deleteImage e i w)) = images w
       \<and> calls_during w (snd (ImageService_deleteImage e i w)) =
            [(ImageFindUnique i, Succeeded), (BlobDelete bucket key, Failed)]"
  using assms by (auto simp add: svc_defs ext_defs calls_during_def split: option.splits)

theorem delete_blob_failure_witness:
  "getBucket stored_world = Inr ''bkt''
   \<and> fault storage_down_env (ImageFindUnique (Finite 1)) = None
   \<and> find (\<lambda>r. Finite (image_id r) = Finite 1) (images stored_world) = Some sample_image
   \<and> pop (split CHR ''/'' (url sample_image)) = Some ''1700000000000.png''
   \<and> fault storage_down_env (BlobDelete ''bkt'' ''1700000000000.png'') \<noteq> None
   \<and> fst (ImageService_deleteImage storage_down_env (Finite 1) stored_world) =
        Inl (Error ''Failed to delete image'')
   \<and> images (snd (ImageService_deleteImage storage_down_env (Finite 1) stored_world)) = [sample_image]"
proof -
  have h1: "getBucket stored_world = Inr ''bkt''"
    by (rule getBucket_sample)
  have h2: "fault storage_down_env (ImageFindUnique (Finite 1)) = None"
    by (simp add: storage_down_env_def storage_down_def)
  have h3: "find (\<lambda>r. Finite (image_id r) = Finite 1) (images stored_world) = Some sample_image"
    by (simp add: stored_world_def sample_image_def)
  have h4: "pop (split CHR ''/'' (url sample_image)) = Some ''1700000000000.png''"
    by (simp add: sample_image_def pop_def)
  have h5: "''1700000000000.png'' \<noteq> []"
    by simp
  have h6: "fault storage_down_env (BlobDelete ''bkt'' ''1700000000000.png'') \<noteq> None"
    by (simp add: storage_down_env_def storage_down_def)
  have h7: "images stored_world = [sample_image]"
    by (simp add: stored_world_def)
  show ?thesis
    using delete_blob_failure_keeps_record [OF h1 h2 h3 h4 h5 disjI1 [OF h6]] h1 h2 h3 h4 h6
    by (simp add: h7)
qed

section \<open>Delete: an id without a row\<close>

text \<open>
  C3, as claimed, fails in its first half.  A delete of the absent id 7 and a delete of the
  existing id 1 while the object store is down end in the same error of the service and in
  the same response of the controller, status 500 with the label and message of a failed
  delete: the caller cannot tell a missing row from any other failure.
\<close>

theorem delete_absent_id_counterexample:
  "find (\<lambda>r. image_id r = 7) (images stored_world) = None
   \<and> find (\<lambda>r. image_id r = 1) (images stored_world) = Some sample_image
   \<and> fst (ImageService_deleteImage sample_env (Finite 7) stored_world) =
       fst (ImageService_deleteImage storage_down_env (Finite 1) stored_world)
   \<and> fst (ImageController_deleteImage sample_env ''7'' stored_world) =
       Response 500 (error_message_body ''Failed to delete image'' ''Failed to delete image'')
   \<and> fst (ImageController_deleteImage storage_down_env ''1'' stored_world) =
       Response 500 (error_message_body ''Failed to delete image'' ''Failed to delete image'')"
  by (simp add: ctl_defs svc_defs ext_defs sample_defs getBucket_def pop_def
        parseInt_defs)

text \<open>
  C3, amended.  For every id without a row, the delete fails with the one error of the
  operation (status 500 at the controller), and every delete that fails, whatever the cause,
  fails with this same error; the blobs and the \<open>image\<close> table are unchanged and no external
  call other than the lookup of the row is made, so no blob operation is attempted.
\<close>

theorem delete_absent_id_generic_failure:
  assumes "find (\<lambda>r. Finite (image_id r) = i) (images w) = None"
  shows "fst (ImageService_deleteImage e i w) = Inl (Error ''Failed to delete image'')
       \<and> (parseInt p = i \<and> \<not> isNaN i \<longrightarrow>
            fst (ImageController_deleteImage e p w) =
              Response 500 (error_message_body ''Failed to delete image'' ''Failed to delete image''))
       \<and> blobs (snd (ImageService_deleteImage e i w)) = blobs w
       \<and> images (snd (ImageService_deleteImage e i w)) = images w
       \<and> (\<forall>c out. (c, out) \<in> set (calls_during w (snd (ImageService_deleteImage e i w))) \<longrightarrow>
             c = ImageFindUnique i)
       \<and> (\<forall>e' i' w' err. fst (ImageService_deleteImage e' i' w') = Inl err \<longrightarrow>
             err = Error ''Failed to delete image'')"
proof -
  have svc: "fst (ImageService_deleteImage e i w) = Inl (Error ''Failed to delete image'')"
    using assms by (auto simp add: svc_defs ext_defs split: option.splits sum.splits)
  have ctl: "parseInt p = i \<and> \<not> isNaN i \<longrightarrow>
            fst (ImageController_deleteImage e p w) =
              Response 500 (error_message_body ''Failed to delete image'' ''Failed to delete image'')"
    using svc
    by (auto simp add: ImageController_deleteImage_def Let_def split: prod.splits sum.splits)
  have rest: "blobs (snd (ImageService_deleteImage e i w)) = blobs w
       \<and> images (snd (ImageService_deleteImage e i w)) = images w
       \<and> (\<forall>c out. (c, out) \<in> set (calls_during w (snd (ImageService_deleteImage e i w))) \<longrightarrow>
             c = ImageFindUnique i)"
    using assms
    by (auto simp add: svc_defs ext_defs calls_during_def split: option.splits sum.splits)
  have any: "\<forall>e' i' w' err. fst (ImageService_deleteImage e' i' w') = Inl err \<longrightarrow>
             err = Error ''Failed to delete image''"
    by (auto simp add: ImageService_deleteImage_def catch_rethrow_def split: prod.splits sum.splits)
  from svc ctl rest any show ?thesis by blast
qed

theorem delete_absent_id_witness:
  "find (\<lambda>r. Finite (image_id r) = Finite 7) (images stored_world) = None
   \<and> parseInt ''7'' = Finite 7 \<and> \<not> isNaN (Finite 7)
   \<and> fst (ImageService_deleteImage sample_env (Finite 7) stored_world) = Inl (Error ''Failed to delete image'')
   \<and> fst (ImageController_deleteImage sample_env ''7'' stored_world) =
        Response 500 (error_message_body ''Failed to delete image'' ''Failed to delete image'')
   \<and> blobs (snd (ImageService_deleteImage sample_env (Finite 7) stored_world)) = blobs stored_world"
proof -
  have h1: "find (\<lambda>r. Finite (image_id r) = Finite 7) (images stored_world) = None"
    by (simp add: stored_world_def sample_image_def)
  have h2: "parseInt ''7'' = Finite 7"
    by (simp add: parseInt_defs)
  show ?thesis
    using delete_absent_id_generic_failure [OF h1, of sample_env "''7''"] h1 h2
    by (simp add: isNaN_def)
qed

section \<open>A missing bucket name\<close>

text \<open>
  C7.  When the bucket name is unset (or empty), every upload and every delete fails and
  leaves the world as it was, trace included: no blob call and no call of the metadata store
  is made.  Listing and lookup do not read the bucket name and succeed whenever the metadata
  store answers.  Building the storage client at module load succeeds whatever the
  environment holds.
\<close>

theorem missing_bucket_name_fails_at_first_storage_access:
  assumes "GCS_BUCKET_NAME (process_env w) = None \<or> GCS_BUCKET_NAME (process_env w) = Some []"
  shows "ImageService_uploadImage e file w = (Inl (Error ''Failed to upload image''), w)
       \<and> ImageService_deleteImage e i w = (Inl (Error ''Failed to delete image''), w)
       \<and> (fault e (ImageFindMany by_createdAt desc) = None \<longrightarrow>
            fst (ImageService_getAllImages e w) =
              Inr (sort_key (\<lambda>r. - createdAt r) (images w)))
       \<and> (fault e (ImageFindUnique i) = None \<longrightarrow>
            fst (ImageService_getImageById e i w) = Inr (find (\<lambda>r. Finite (image_id r) = i) (images w)))
       \<and> (\<exists>c. storage (process_env w) = Inr c)"
  using assms by (auto simp add: svc_defs ext_defs getBucket_def storage_def order_key_createdAt_desc)

theorem missing_bucket_name_witness:
  "GCS_BUCKET_NAME (process_env unconfigured_world) = None
   \<and> ImageService_uploadImage sample_env sample_file unconfigured_world =
        (Inl (Error ''Failed to upload image''), unconfigured_world)
   \<and> ImageService_deleteImage sample_env (Finite 1) unconfigured_world =
        (Inl (Error ''Failed to delete image''), unconfigured_world)
   \<and> fault sample_env (ImageFindMany by_createdAt desc) = None
   \<and> fst (ImageService_getAllImages sample_env unconfigured_world) = Inr [sample_image]
   \<and> fault sample_env (ImageFindUnique (Finite 1)) = None
   \<and> fst (ImageService_getImageById sample_env (Finite 1) unconfigured_world) = Inr (Some sample_image)"
proof -
  have h1: "GCS_BUCKET_NAME (process_env unconfigured_world) = None"
    by (simp add: unconfigured_world_def)
  have h2: "fault sample_env (ImageFindMany by_createdAt desc) = None"
    "fault sample_env (ImageFindUnique (Finite 1)) = None"
    by (simp_all add: sample_env_def)
  have h3: "images unconfigured_world = [sample_image]"
    by (simp add: unconfigured_world_def stored_world_def)
  have h4: "image_id sample_image = 1"
    by (simp add: sample_image_def)
  show ?thesis
    using missing_bucket_name_fails_at_first_storage_access
            [OF disjI1 [OF h1], of sample_env sample_file "Finite 1"] h1 h2
    by (simp add: h3 h4)
qed

section \<open>Decimal strings and path segments\<close>

lemma below_ten: "d < 10 \<Longrightarrow> d \<in> {0, 1, 2, 3, 4, 5, 6, 7, 8, 9 :: nat}"
  by auto

lemma digit_value_digit_char: "d < 10 \<Longrightarrow> digit_value (digit_char d) = Some d"
  by (drule below_ten) (auto simp add: digit_value_def digit_char_def Let_def)

lemma digit_char_neq_minus: "d < 10 \<Longrightarrow> digit_char d \<noteq> CHR ''-''"
  by (drule below_ten) (auto simp add: digit_char_def)

lemma radix_value_snoc: "radix_value R (Z @ [c]) = radix_value R Z * R + the (digit_value c)"
  by (simp add: radix_value_def)

text \<open>Reading the decimal string of a number gives the number back, so the string
  determines the number.\<close>

lemma radix_value_digits: "radix_value 10 (digits n) = n"
proof (induction n rule: digits.induct)
  case (1 n)
  show ?case
  proof (cases "n < 10")
    case True
    then show ?thesis
      by (simp add: radix_value_def digit_value_digit_char)
  next
    case False
    then have "radix_value 10 (digits n) = radix_value 10 (digits (n div 10)) * 10 + n mod 10"
      by (subst digits.simps) (simp add: radix_value_snoc digit_value_digit_char)
    with False 1 show ?thesis by simp
  qed
qed

lemma digits_inj: "digits m = digits n \<Longrightarrow> m = n"
  by (metis radix_value_digits)

lemma digits_not_Nil: "digits n \<noteq> []"
  by (subst digits.simps) simp

lemma hd_digits: "hd (digits n) \<noteq> CHR ''-''"
proof (induction n rule: digits.induct)
  case (1 n)
  show ?case
  proof (cases "n < 10")
    case True
    then show ?thesis by (simp add: digit_char_neq_minus)
  next
    case False
    with 1 show ?thesis
      by (subst digits.simps) (simp add: digits_not_Nil)
  qed
qed

lemma Number_toString_inj: "Number_toString m = Number_toString n \<Longrightarrow> m = n"
proof -
  assume eq: "Number_toString m = Number_toString n"
  have neg: "hd (Number_toString k) = CHR ''-'' \<longleftrightarrow> k < 0" for k
    using hd_digits [of "nat k"] by (simp add: Number_toString_def)
  from eq neg [of m] neg [of n] have same: "m < 0 \<longleftrightarrow> n < 0" by simp
  show "m = n"
  proof (cases "m < 0")
    case True
    with same eq have "digits (nat (- m)) = digits (nat (- n))"
      by (simp add: Number_toString_def)
    then have "nat (- m) = nat (- n)" by (rule digits_inj)
    with True same show ?thesis by simp
  next
    case False
    with same eq have "digits (nat m) = digits (nat n)"
      by (simp add: Number_toString_def)
    then have "nat m = nat n" by (rule digits_inj)
    with False same show ?thesis by simp
  qed
qed

lemma split_not_Nil: "split sep s \<noteq> []"
  by (induction s) (auto split: list.splits)

lemma split_no_sep: "sep \<notin> set k \<Longrightarrow> split sep k = [k]"
  by (induction k) auto

lemma length_split: "length (split sep s) = Suc (length (filter (\<lambda>c. c = sep) s))"
  by (induction s) (auto split: list.splits)

text \<open>The last piece of a string is the last piece of what follows any separator in it.\<close>

lemma last_split_append: "last (split sep (xs @ sep # k)) = last (split sep k)"
proof (induction xs)
  case Nil
  then show ?case by (simp add: split_not_Nil)
next
  case (Cons c xs)
  show ?case
  proof (cases "c = sep")
    case True
    with Cons show ?thesis by (simp add: split_not_Nil)
  next
    case False
    obtain x ys where sp: "split sep (xs @ sep # k) = x # ys"
      using split_not_Nil [of sep "xs @ sep # k"] by (cases "split sep (xs @ sep # k)") auto
    have "length (split sep (xs @ sep # k)) \<ge> 2"
      by (simp add: length_split)
    with sp have "ys \<noteq> []" by auto
    with False sp Cons show ?thesis by simp
  qed
qed

lemma pop_split_publicUrl:
  "CHR ''/'' \<notin> set key \<Longrightarrow> pop (split CHR ''/'' (publicUrl_of bucket key)) = Some key"
proof -
  assume k: "CHR ''/'' \<notin> set key"
  have "publicUrl_of bucket key = (''https://storage.googleapis.com/'' @ bucket) @ CHR ''/'' # key"
    by (simp add: publicUrl_of_def)
  then have "last (split CHR ''/'' (publicUrl_of bucket key)) = last (split CHR ''/'' key)"
    by (simp only: last_split_append)
  with k show ?thesis
    by (simp add: pop_def split_not_Nil split_no_sep)
qed

section \<open>Object keys\<close>

text \<open>
  C4, as claimed, fails.  Two different files of the same extension, uploaded while
  \<^verbatim>\<open>Date.now()\<close> reads the same millisecond, get the same object key: both rows point to
  one url and the second blob has replaced the first.
\<close>

theorem same_millisecond_same_key_counterexample:
  "sample_file \<noteq> other_file
   \<and> extname sample_env (originalname sample_file) = extname sample_env (originalname other_file)
   \<and> fileName_of sample_env sample_file = fileName_of sample_env other_file
   \<and> fst (ImageService_uploadImage sample_env sample_file empty_world) = Inr sample_image
   \<and> map url (images (snd (ImageService_uploadImage sample_env other_file
        (snd (ImageService_uploadImage sample_env sample_file empty_world))))) =
       [''https://storage.googleapis.com/bkt/1700000000000.png'',
        ''https://storage.googleapis.com/bkt/1700000000000.png'']
   \<and> map_option content (blobs (snd (ImageService_uploadImage sample_env other_file
        (snd (ImageService_uploadImage sample_env sample_file empty_world))))
          (''bkt'', ''1700000000000.png'')) = Some ''xyz''"
  by (simp add: svc_defs ext_defs sample_defs getBucket_def fileName_of_def publicUrl_of_def
        Number_toString_def digit_char_def)

text \<open>
  C4, amended.  For two uploads whose files share an extension, the object keys differ
  exactly when the two readings of \<^verbatim>\<open>Date.now()\<close> differ.
\<close>

theorem keys_differ_iff_clock_differs:
  assumes "extname e1 (originalname f1) = extname e2 (originalname f2)"
  shows "fileName_of e1 f1 \<noteq> fileName_of e2 f2 \<longleftrightarrow> dateNow e1 \<noteq> dateNow e2"
  using assms by (auto simp add: fileName_of_def dest: Number_toString_inj)

theorem keys_differ_witness:
  "extname sample_env (originalname sample_file) = extname later_env (originalname other_file)
   \<and> dateNow sample_env \<noteq> dateNow later_env
   \<and> fileName_of sample_env sample_file \<noteq> fileName_of later_env other_file"
proof -
  have h: "extname sample_env (originalname sample_file) =
           extname later_env (originalname other_file)"
    by (simp add: sample_defs)
  have t: "dateNow sample_env \<noteq> dateNow later_env"
    by (simp add: sample_defs)
  show ?thesis
    using keys_differ_iff_clock_differs [OF h] h t by simp
qed

section \<open>From the url back to the key\<close>

lemma upload_url:
  "getBucket w = Inr bucket \<Longrightarrow> fst (ImageService_uploadImage e file w) = Inr r \<Longrightarrow>
   url r = publicUrl_of bucket (fileName_of e file)"
  by (auto simp add: svc_defs ext_defs split: option.splits)

lemma delete_blob_key:
  assumes "getBucket w = Inr bucket"
    and "fault e (ImageFindUnique i) = None"
    and "find (\<lambda>r. Finite (image_id r) = i) (images w) = Some img"
    and "pop (split CHR ''/'' (url img)) = Some key" and "key \<noteq> []"
  shows "\<exists>out rest. calls_during w (snd (ImageService_deleteImage e i w)) =
           (ImageFindUnique i, Succeeded) # (BlobDelete bucket key, out) # rest
         \<and> (\<forall>b k o'. (BlobDelete b k, o') \<notin> set rest)"
  using assms
  by (auto simp add: svc_defs ext_defs calls_during_def split: option.splits)

text \<open>
  C5.  For a key without \<^verbatim>\<open>/\<close>, the last path segment of the public url built from any
  bucket name and the key is the key.  An upload stores exactly this url in its row, and a
  delete of a row with such a url directs its one blob deletion at exactly this key.
\<close>

theorem url_key_round_trip:
  assumes "CHR ''/'' \<notin> set key"
  shows "pop (split CHR ''/'' (publicUrl_of bucket key)) = Some key
       \<and> (getBucket w = Inr bucket \<and> fileName_of e file = key
            \<and> fst (ImageService_uploadImage e file w) = Inr r \<longrightarrow>
          url r = publicUrl_of bucket key)
       \<and> (getBucket w' = Inr bucket' \<and> fault e' (ImageFindUnique i) = None
            \<and> find (\<lambda>r. Finite (image_id r) = i) (images w') = Some img
            \<and> url img = publicUrl_of bucket key \<and> key \<noteq> [] \<longrightarrow>
          (\<exists>out rest. calls_during w' (snd (ImageService_deleteImage e' i w')) =
             (ImageFindUnique i, Succeeded) # (BlobDelete bucket' key, out) # rest
           \<and> (\<forall>b k o'. (BlobDelete b k, o') \<notin> set rest)))"
proof (intro conjI impI)
  show rt: "pop (split CHR ''/'' (publicUrl_of bucket key)) = Some key"
    using assms by (rule pop_split_publicUrl)
  show "url r = publicUrl_of bucket key"
    if "getBucket w = Inr bucket \<and> fileName_of e file = key
            \<and> fst (ImageService_uploadImage e file w) = Inr r"
    using that by (auto dest: upload_url)
  show "\<exists>out rest. calls_during w' (snd (ImageService_deleteImage e' i w')) =
             (ImageFindUnique i, Succeeded) # (BlobDelete bucket' key, out) # rest
           \<and> (\<forall>b k o'. (BlobDelete b k, o') \<notin> set rest)"
    if h: "getBucket w' = Inr bucket' \<and> fault e' (ImageFindUnique i) = None
            \<and> find (\<lambda>r. Finite (image_id r) = i) (images w') = Some img
            \<and> url img = publicUrl_of bucket key \<and> key \<noteq> []"
  proof -
    from h have a: "getBucket w' = Inr bucket'" and b: "fault e' (ImageFindUnique i) = None"
      and c: "find (\<lambda>r. Finite (image_id r) = i) (images w') = Some img"
      and d: "url img = publicUrl_of bucket key" and n: "key \<noteq> []"
      by blast+
    from d rt have "pop (split CHR ''/'' (url img)) = Some key" by (simp only:)
    then show ?thesis
      using a b c n by (intro delete_blob_key)
  qed
qed

theorem url_key_round_trip_witness:
  "CHR ''/'' \<notin> set ''1700000000000.png''
   \<and> pop (split CHR ''/'' (publicUrl_of ''bkt'' ''1700000000000.png'')) = Some ''1700000000000.png''
   \<and> fileName_of sample_env sample_file = ''1700000000000.png''
   \<and> fst (ImageService_uploadImage sample_env sample_file empty_world) = Inr sample_image
   \<and> url sample_image = publicUrl_of ''bkt'' ''1700000000000.png''
   \<and> find (\<lambda>r. Finite (image_id r) = Finite 1) (images stored_world) = Some sample_image
   \<and> calls_during stored_world (snd (ImageService_deleteImage sample_env (Finite 1) stored_world)) =
        [(ImageFindUnique (Finite 1), Succeeded), (BlobDelete ''bkt'' ''1700000000000.png'', Succeeded),
         (ImageDelete (Finite 1), Succeeded)]"
proof -
  have h: "CHR ''/'' \<notin> set ''1700000000000.png''"
    by simp
  have up: "fst (ImageService_uploadImage sample_env sample_file empty_world) = Inr sample_image"
    by (simp add: svc_defs ext_defs sample_defs getBucket_def fileName_of_def publicUrl_of_def
          Number_toString_def digit_char_def)
  have u: "url sample_image = publicUrl_of ''bkt'' ''1700000000000.png''"
    by (simp add: sample_image_def publicUrl_of_def)
  have f: "find (\<lambda>r. Finite (image_id r) = Finite 1) (images stored_world) = Some sample_image"
    by (simp add: stored_world_def sample_image_def)
  have d: "calls_during stored_world (snd (ImageService_deleteImage sample_env (Finite 1) stored_world)) =
        [(ImageFindUnique (Finite 1), Succeeded), (BlobDelete ''bkt'' ''1700000000000.png'', Succeeded),
         (ImageDelete (Finite 1), Succeeded)]"
    by (simp add: svc_defs ext_defs calls_during_def sample_defs getBucket_def pop_def)
  show ?thesis
    using url_key_round_trip [OF h, of "''bkt''"] h up u f d
    by (simp add: fileName_of_sample)
qed


section \<open>Listing\<close>

lemma getAll_result:
  "fault e (ImageFindMany by_createdAt desc) = None \<Longrightarrow>
   fst (ImageService_getAllImages e w) = Inr (sort_key (\<lambda>r. - createdAt r) (images w))"
  by (simp add: svc_defs ext_defs order_key_createdAt_desc)

lemma newest_first_sorted:
  "sorted_wrt (\<lambda>a b. createdAt b \<le> createdAt a) (sort_key (\<lambda>r. - createdAt r) rs)"
proof -
  have "sorted (map (\<lambda>r. - createdAt r) (sort_key (\<lambda>r. - createdAt r) rs))"
    by (rule sorted_sort_key)
  then show ?thesis
    by (simp add: sorted_map)
qed

lemma distinct_negated: "distinct (map (\<lambda>r. - createdAt r) rs) = distinct (map createdAt rs)"
proof -
  have "map (\<lambda>r. - createdAt r) rs = map uminus (map createdAt rs)" by simp
  then show ?thesis
    by (simp only: distinct_map) (auto simp: inj_on_def)
qed

lemma distinct_after_sort:
  "distinct (map createdAt rs) \<Longrightarrow> distinct (map createdAt (sort_key (\<lambda>r. - createdAt r) rs))"
proof -
  assume "distinct (map createdAt rs)"
  moreover have "mset (map createdAt (sort_key (\<lambda>r. - createdAt r) rs)) = mset (map createdAt rs)"
    by simp
  ultimately show ?thesis
    by (metis mset_eq_imp_distinct_iff)
qed

lemma newest_first_strict:
  assumes "distinct (map createdAt rs)"
  shows "sorted_wrt (\<lambda>a b. createdAt b < createdAt a) (sort_key (\<lambda>r. - createdAt r) rs)"
proof -
  let ?s = "sort_key (\<lambda>r. - createdAt r) rs"
  have "sorted (map (\<lambda>r. - createdAt r) ?s)" by (rule sorted_sort_key)
  moreover have "distinct (map (\<lambda>r. - createdAt r) ?s)"
    using assms by (simp only: distinct_negated distinct_after_sort)
  ultimately have "sorted_wrt (<) (map (\<lambda>r. - createdAt r) ?s)"
    by (simp add: strict_sorted_iff)
  then show ?thesis
    by (simp add: sorted_wrt_map)
qed

text \<open>With pairwise different creation times the listing is the same for every order in
  which the same rows sit in the table.\<close>

lemma newest_first_any_insertion_order:
  assumes "mset rs' = mset rs" and "distinct (map createdAt rs)"
  shows "sort_key (\<lambda>r. - createdAt r) rs' = sort_key (\<lambda>r. - createdAt r) rs"
proof (rule map_sorted_distinct_set_unique [where f = "\<lambda>r. - createdAt r"])
  have d': "distinct (map createdAt rs')"
    using assms by (metis mset_eq_imp_distinct_iff mset_map)
  have s: "set rs' = set rs" using assms(1) by (rule mset_eq_setD)
  from assms(2) have "inj_on createdAt (set rs)" by (simp add: distinct_map)
  then show "inj_on (\<lambda>r. - createdAt r)
     (set (sort_key (\<lambda>r. - createdAt r) rs') \<union> set (sort_key (\<lambda>r. - createdAt r) rs))"
    using s by (auto simp: inj_on_def)
  show "sorted (map (\<lambda>r. - createdAt r) (sort_key (\<lambda>r. - createdAt r) rs'))"
    by (rule sorted_sort_key)
  show "sorted (map (\<lambda>r. - createdAt r) (sort_key (\<lambda>r. - createdAt r) rs))"
    by (rule sorted_sort_key)
  show "distinct (map (\<lambda>r. - createdAt r) (sort_key (\<lambda>r. - createdAt r) rs'))"
    using d' by (simp only: distinct_negated distinct_after_sort)
  show "distinct (map (\<lambda>r. - createdAt r) (sort_key (\<lambda>r. - createdAt r) rs))"
    using assms(2) by (simp only: distinct_negated distinct_after_sort)
  show "set (sort_key (\<lambda>r. - createdAt r) rs') = set (sort_key (\<lambda>r. - createdAt r) rs)"
    using s by simp
qed

lemma upload_appends:
  "ImageService_uploadImage e f w = (Inr r, w') \<Longrightarrow>
   images w' = images w @ [r] \<and> createdAt r = dbNow e"
  by (auto simp add: svc_defs ext_defs split: option.splits sum.splits)

lemma three_uploads_listed:
  assumes "fault e (ImageFindMany by_createdAt desc) = None"
    and "images w = []"
    and "ImageService_uploadImage eA fA w = (Inr A, w1)"
    and "ImageService_uploadImage eB fB w1 = (Inr B, w2)"
    and "ImageService_uploadImage eC fC w2 = (Inr C, w3)"
    and "dbNow eA < dbNow eB" and "dbNow eB < dbNow eC"
  shows "fst (ImageService_getAllImages e w3) = Inr [C, B, A]"
proof -
  from assms(2,3) have 1: "images w1 = [A]" and a: "createdAt A = dbNow eA"
    using upload_appends by fastforce+
  from assms(4) 1 have 2: "images w2 = [A, B]" and b: "createdAt B = dbNow eB"
    using upload_appends by fastforce+
  from assms(5) 2 have 3: "images w3 = [A, B, C]" and c: "createdAt C = dbNow eC"
    using upload_appends by fastforce+
  from assms(6,7) a b c have "sort_key (\<lambda>r. - createdAt r) [A, B, C] = [C, B, A]"
    by simp
  with 3 getAll_result [OF assms(1), of w3] show ?thesis
    by simp
qed

text \<open>
  C6, as claimed, fails.  Three uploads A, B, C into an empty table whose rows the metadata
  store stamps with the same millisecond are listed as A, B, C here (the store leaves the
  order of such rows open), not as C, B, A; and in no order is a listing of rows with equal
  \<open>createdAt\<close> strictly descending.
\<close>

theorem listing_of_equal_stamps_counterexample:
  "fault sample_env (ImageFindMany by_createdAt desc) = None
   \<and> images empty_world = []
   \<and> fst (ImageService_uploadImage sample_env sample_file empty_world) = Inr sample_image
   \<and> fst (ImageService_uploadImage second_same_stamp_env other_file
             (snd (ImageService_uploadImage sample_env sample_file empty_world)))
       = Inr (second_image\<lparr>createdAt := 1700000000123\<rparr>)
   \<and> fst (ImageService_uploadImage third_same_stamp_env sample_file
             (snd (ImageService_uploadImage second_same_stamp_env other_file
                (snd (ImageService_uploadImage sample_env sample_file empty_world)))))
       = Inr (third_image\<lparr>createdAt := 1700000000123\<rparr>)
   \<and> fst (ImageService_getAllImages sample_env
             (snd (ImageService_uploadImage third_same_stamp_env sample_file
                (snd (ImageService_uploadImage second_same_stamp_env other_file
                   (snd (ImageService_uploadImage sample_env sample_file empty_world)))))))
       = Inr [sample_image, second_image\<lparr>createdAt := 1700000000123\<rparr>,
              third_image\<lparr>createdAt := 1700000000123\<rparr>]
   \<and> \<not> sorted_wrt (\<lambda>a b. createdAt b < createdAt a)
         [sample_image, second_image\<lparr>createdAt := 1700000000123\<rparr>,
          third_image\<lparr>createdAt := 1700000000123\<rparr>]
   \<and> \<not> sorted_wrt (\<lambda>a b. createdAt b < createdAt a)
         [third_image\<lparr>createdAt := 1700000000123\<rparr>,
          second_image\<lparr>createdAt := 1700000000123\<rparr>, sample_image]"
  by (simp add: svc_defs ext_defs sample_defs third_image_def getBucket_def fileName_of_def
        publicUrl_of_def Number_toString_def digit_char_def order_key_def)

text \<open>
  C6, amended.  When the metadata store answers, the listing holds exactly the rows of the
  table, each as often as the table does, ordered by \<open>createdAt\<close> with a newer row never
  after an older one.  When the creation times are pairwise different the order is strictly
  descending and the same for every order of insertion of the same rows.  Three uploads A, B,
  C into an empty table, with increasing creation times, are listed as C, B, A.
\<close>

theorem getAll_newest_first:
  assumes "fault e (ImageFindMany by_createdAt desc) = None"
  shows "(\<exists>rs. fst (ImageService_getAllImages e w) = Inr rs
           \<and> mset rs = mset (images w)
           \<and> sorted_wrt (\<lambda>a b. createdAt b \<le> createdAt a) rs
           \<and> (distinct (map createdAt (images w)) \<longrightarrow>
                sorted_wrt (\<lambda>a b. createdAt b < createdAt a) rs
                \<and> (\<forall>w2. mset (images w2) = mset (images w) \<longrightarrow>
                      fst (ImageService_getAllImages e w2) = Inr rs)))
       \<and> (\<forall>eA fA A w1 eB fB B w2 eC fC C w3.
             images w = []
             \<and> ImageService_uploadImage eA fA w = (Inr A, w1)
             \<and> ImageService_uploadImage eB fB w1 = (Inr B, w2)
             \<and> ImageService_uploadImage eC fC w2 = (Inr C, w3)
             \<and> dbNow eA < dbNow eB \<and> dbNow eB < dbNow eC \<longrightarrow>
             fst (ImageService_getAllImages e w3) = Inr [C, B, A])"
proof (rule conjI)
  let ?rs = "sort_key (\<lambda>r. - createdAt r) (images w)"
  have "fst (ImageService_getAllImages e w) = Inr ?rs"
    using assms by (rule getAll_result)
  moreover have "mset ?rs = mset (images w)"
    by simp
  moreover have "sorted_wrt (\<lambda>a b. createdAt b \<le> createdAt a) ?rs"
    by (rule newest_first_sorted)
  moreover have "distinct (map createdAt (images w)) \<longrightarrow>
      sorted_wrt (\<lambda>a b. createdAt b < createdAt a) ?rs
      \<and> (\<forall>w2. mset (images w2) = mset (images w) \<longrightarrow>
            fst (ImageService_getAllImages e w2) = Inr ?rs)"
    using newest_first_strict newest_first_any_insertion_order getAll_result [OF assms]
    by auto
  ultimately show "\<exists>rs. fst (ImageService_getAllImages e w) = Inr rs
           \<and> mset rs = mset (images w)
           \<and> sorted_wrt (\<lambda>a b. createdAt b \<le> createdAt a) rs
           \<and> (distinct (map createdAt (images w)) \<longrightarrow>
                sorted_wrt (\<lambda>a b. createdAt b < createdAt a) rs
                \<and> (\<forall>w2. mset (images w2) = mset (images w) \<longrightarrow>
                      fst (ImageService_getAllImages e w2) = Inr rs))"
    by blast
next
  show "\<forall>eA fA A w1 eB fB B w2 eC fC C w3.
             images w = []
             \<and> ImageService_uploadImage eA fA w = (Inr A, w1)
             \<and> ImageService_uploadImage eB fB w1 = (Inr B, w2)
             \<and> ImageService_uploadImage eC fC w2 = (Inr C, w3)
             \<and> dbNow eA < dbNow eB \<and> dbNow eB < dbNow eC \<longrightarrow>
             fst (ImageService_getAllImages e w3) = Inr [C, B, A]"
    using three_uploads_listed [OF assms] by blast
qed

theorem getAll_newest_first_witness:
  "fault sample_env (ImageFindMany by_createdAt desc) = None
   \<and> images empty_world = []
   \<and> dbNow sample_env < dbNow later_env \<and> dbNow later_env < dbNow latest_env
   \<and> fst (ImageService_uploadImage sample_env sample_file empty_world) = Inr sample_image
   \<and> fst (ImageService_uploadImage later_env other_file
             (snd (ImageService_uploadImage sample_env sample_file empty_world))) = Inr second_image
   \<and> fst (ImageService_uploadImage latest_env sample_file
             (snd (ImageService_uploadImage later_env other_file
                (snd (ImageService_uploadImage sample_env sample_file empty_world))))) = Inr third_image
   \<and> fst (ImageService_getAllImages sample_env
             (snd (ImageService_uploadImage latest_env sample_file
                (snd (ImageService_uploadImage later_env other_file
                   (snd (ImageService_uploadImage sample_env sample_file empty_world)))))))
       = Inr [third_image, second_image, sample_image]"
proof -
  let ?w1 = "snd (ImageService_uploadImage sample_env sample_file empty_world)"
  let ?w2 = "snd (ImageService_uploadImage later_env other_file ?w1)"
  let ?w3 = "snd (ImageService_uploadImage latest_env sample_file ?w2)"
  have h: "fault sample_env (ImageFindMany by_createdAt desc) = None"
    by (simp add: sample_env_def)
  have i: "images empty_world = []"
    by (simp add: empty_world_def)
  have t: "dbNow sample_env < dbNow later_env" "dbNow later_env < dbNow latest_env"
    by (simp_all add: sample_defs)
  have a: "fst (ImageService_uploadImage sample_env sample_file empty_world) = Inr sample_image"
    by (simp add: svc_defs ext_defs sample_defs getBucket_def fileName_of_def publicUrl_of_def
          Number_toString_def digit_char_def)
  have b: "fst (ImageService_uploadImage later_env other_file ?w1) = Inr second_image"
    by (simp add: svc_defs ext_defs sample_defs getBucket_def fileName_of_def publicUrl_of_def
          Number_toString_def digit_char_def)
  have c: "fst (ImageService_uploadImage latest_env sample_file ?w2) = Inr third_image"
    by (simp add: svc_defs ext_defs sample_defs third_image_def getBucket_def fileName_of_def
          publicUrl_of_def Number_toString_def digit_char_def)
  have a': "ImageService_uploadImage sample_env sample_file empty_world = (Inr sample_image, ?w1)"
    using a by (simp add: prod_eq_iff)
  have b': "ImageService_uploadImage later_env other_file ?w1 = (Inr second_image, ?w2)"
    using b by (simp add: prod_eq_iff)
  have c': "ImageService_uploadImage latest_env sample_file ?w2 = (Inr third_image, ?w3)"
    using c by (simp add: prod_eq_iff)
  have "fst (ImageService_getAllImages sample_env ?w3)
          = Inr [third_image, second_image, sample_image]"
    using getAll_newest_first [OF h, of empty_world] i a' b' c' t by blast
  with h i t a b c show ?thesis
    by simp
qed


section \<open>Propagation of failures\<close>

lemma upload_resignalled:
  "resignalled_once ''Failed to upload image'' w (ImageService_uploadImage e file w)"
  by (auto simp add: resignalled_once_def svc_defs ext_defs calls_during_def
        split: option.splits sum.splits)

lemma getAll_resignalled:
  "resignalled_once ''Failed to fetch images'' w (ImageService_getAllImages e w)"
  by (auto simp add: resignalled_once_def svc_defs ext_defs calls_during_def
        split: option.splits sum.splits)

lemma getById_resignalled:
  "resignalled_once ''Failed to fetch image'' w (ImageService_getImageById e i w)"
  by (auto simp add: resignalled_once_def svc_defs ext_defs calls_during_def
        split: option.splits sum.splits)

lemma delete_resignalled:
  "resignalled_once ''Failed to delete image'' w (ImageService_deleteImage e i w)"
  by (auto simp add: resignalled_once_def svc_defs ext_defs calls_during_def
        split: option.splits sum.splits)

lemma resignalled_onceD:
  "resignalled_once msg w R \<Longrightarrow> (c, Failed) \<in> set (calls_during w (snd R)) \<Longrightarrow>
   fst R = Inl (Error msg)"
  by (force simp add: resignalled_once_def Let_def)

text \<open>At the controller a failed external call always ends in status 500.\<close>

lemma handle_failure_500:
  assumes "(c, Failed) \<in> set (calls_during w (snd (handle e req w)))"
  shows "\<exists>lbl m. fst (handle e req w) = Response 500 (error_message_body lbl m)"
proof (cases req)
  case (POST_upload req_file)
  show ?thesis
  proof (cases req_file)
    case None
    with POST_upload assms show ?thesis
      by (simp add: ImageController_uploadImage_def calls_during_def)
  next
    case (Some f)
    obtain r w1 where R: "ImageService_uploadImage e f w = (r, w1)"
      by (cases "ImageService_uploadImage e f w")
    with POST_upload Some assms have "(c, Failed) \<in> set (calls_during w w1)"
      by (simp add: ImageController_uploadImage_def split: sum.splits)
    with R upload_resignalled [of w e f] have "r = Inl (Error ''Failed to upload image'')"
      by (auto dest: resignalled_onceD)
    with POST_upload Some R show ?thesis
      by (simp add: ImageController_uploadImage_def)
  qed
next
  case GET_images
  obtain r w1 where R: "ImageService_getAllImages e w = (r, w1)"
    by (cases "ImageService_getAllImages e w")
  with GET_images assms have "(c, Failed) \<in> set (calls_during w w1)"
    by (simp add: ImageController_getAllImages_def split: sum.splits)
  with R getAll_resignalled [of w e] have "r = Inl (Error ''Failed to fetch images'')"
    by (auto dest: resignalled_onceD)
  with GET_images R show ?thesis
    by (simp add: ImageController_getAllImages_def)
next
  case (GET_image p)
  show ?thesis
  proof (cases "isNaN (parseInt p)")
    case True
    with GET_image assms show ?thesis
      by (simp add: ImageController_getImageById_def calls_during_def)
  next
    case False
    obtain r w1 where R: "ImageService_getImageById e (parseInt p) w = (r, w1)"
      by (cases "ImageService_getImageById e (parseInt p) w")
    with GET_image False assms have "(c, Failed) \<in> set (calls_during w w1)"
      by (simp add: ImageController_getImageById_def split: sum.splits option.splits)
    with R getById_resignalled [of w e "parseInt p"]
    have "r = Inl (Error ''Failed to fetch image'')"
      by (auto dest: resignalled_onceD)
    with GET_image False R show ?thesis
      by (simp add: ImageController_getImageById_def)
  qed
next
  case (DELETE_image p)
  show ?thesis
  proof (cases "isNaN (parseInt p)")
    case True
    with DELETE_image assms show ?thesis
      by (simp add: ImageController_deleteImage_def calls_during_def)
  next
    case False
    obtain r w1 where R: "ImageService_deleteImage e (parseInt p) w = (r, w1)"
      by (cases "ImageService_deleteImage e (parseInt p) w")
    with DELETE_image False assms have "(c, Failed) \<in> set (calls_during w w1)"
      by (simp add: ImageController_deleteImage_def split: sum.splits)
    with R delete_resignalled [of w e "parseInt p"]
    have "r = Inl (Error ''Failed to delete image'')"
      by (auto dest: resignalled_onceD)
    with DELETE_image False R show ?thesis
      by (simp add: ImageController_deleteImage_def)
  qed
qed

text \<open>
  C8.  In each of the four operations of the service, an external call that fails makes the
  operation fail with the one error of that operation, and the operation raises no other
  error; no external call is made twice and none is made after a failed one.  At the
  controller, a request during which an external call failed is answered with status 500
  and an error body.
\<close>

theorem failures_resignalled_never_retried:
  "resignalled_once ''Failed to upload image'' w (ImageService_uploadImage e file w)
   \<and> resignalled_once ''Failed to fetch images'' w (ImageService_getAllImages e w)
   \<and> resignalled_once ''Failed to fetch image'' w (ImageService_getImageById e i w)
   \<and> resignalled_once ''Failed to delete image'' w (ImageService_deleteImage e i w)
   \<and> ((\<exists>c. (c, Failed) \<in> set (calls_during w (snd (handle e req w)))) \<longrightarrow>
        (\<exists>lbl m. fst (handle e req w) = Response 500 (error_message_body lbl m)))"
  using upload_resignalled getAll_resignalled getById_resignalled delete_resignalled
    handle_failure_500 by blast

theorem failures_resignalled_witness:
  "Failed \<in> set (map snd (calls_during stored_world
       (snd (ImageService_deleteImage storage_down_env (Finite 1) stored_world))))
   \<and> fst (ImageService_deleteImage storage_down_env (Finite 1) stored_world) =
        Inl (Error ''Failed to delete image'')
   \<and> (BlobDelete ''bkt'' ''1700000000000.png'', Failed) \<in>
        set (calls_during stored_world (snd (handle storage_down_env (DELETE_image ''1'') stored_world)))
   \<and> fst (handle storage_down_env (DELETE_image ''1'') stored_world) =
        Response 500 (error_message_body ''Failed to delete image'' ''Failed to delete image'')
   \<and> resignalled_once ''Failed to delete image'' stored_world
        (ImageService_deleteImage storage_down_env (Finite 1) stored_world)"
proof -
  have d: "calls_during stored_world (snd (ImageService_deleteImage storage_down_env (Finite 1) stored_world))
      = [(ImageFindUnique (Finite 1), Succeeded), (BlobDelete ''bkt'' ''1700000000000.png'', Failed)]"
    by (simp add: svc_defs ext_defs calls_during_def sample_defs getBucket_def pop_def)
  have r: "fst (ImageService_deleteImage storage_down_env (Finite 1) stored_world) =
        Inl (Error ''Failed to delete image'')"
    by (simp add: svc_defs ext_defs sample_defs getBucket_def pop_def)
  have p: "parseInt ''1'' = Finite 1"
    by (simp add: parseInt_defs)
  have hc: "calls_during stored_world
              (snd (handle storage_down_env (DELETE_image ''1'') stored_world))
      = [(ImageFindUnique (Finite 1), Succeeded), (BlobDelete ''bkt'' ''1700000000000.png'', Failed)]"
    using d
    by (auto simp add: ImageController_deleteImage_def p isNaN_def split: prod.splits sum.splits)
  have hr: "fst (handle storage_down_env (DELETE_image ''1'') stored_world) =
        Response 500 (error_message_body ''Failed to delete image'' ''Failed to delete image'')"
    using r
    by (auto simp add: ImageController_deleteImage_def p isNaN_def split: prod.splits sum.splits)
  show ?thesis
    using failures_resignalled_never_retried
            [of stored_world storage_down_env sample_file "Finite 1" "DELETE_image ''1''"] d r hc hr
    by simp
qed

section \<open>Rows are never changed\<close>

lemma images_upload:
  "images (snd (ImageService_uploadImage e f w)) = images w
   \<or> (\<exists>r. ImageService_uploadImage e f w = (Inr r, snd (ImageService_uploadImage e f w))
          \<and> images (snd (ImageService_uploadImage e f w)) = images w @ [r])"
  by (auto simp add: svc_defs ext_defs split: option.splits sum.splits)

lemma images_getAll: "images (snd (ImageService_getAllImages e w)) = images w"
  by (auto simp add: svc_defs ext_defs split: option.splits sum.splits)

lemma images_getById: "images (snd (ImageService_getImageById e i w)) = images w"
  by (auto simp add: svc_defs ext_defs split: option.splits sum.splits)

lemma find_by_number:
  "find (\<lambda>r. Finite (image_id r) = i) rs = Some x \<Longrightarrow> i = Finite (image_id x)"
  by (auto simp add: find_Some_iff)

lemma images_delete:
  "images (snd (ImageService_deleteImage e i w)) = images w
   \<or> (fst (ImageService_deleteImage e i w) = Inr ()
        \<and> (\<exists>j. i = Finite j
              \<and> images (snd (ImageService_deleteImage e i w)) =
                  filter (\<lambda>r. image_id r \<noteq> j) (images w)))"
  by (auto simp add: svc_defs ext_defs split: option.splits sum.splits dest!: find_by_number)

lemma handle_images:
  "images (snd (handle e req w)) = images w
    \<or> (\<exists>f r. req = POST_upload (Some f)
          \<and> fst (handle e req w) = Response 201 (message_image_body ''Upload successful'' r)
          \<and> images (snd (handle e req w)) = images w @ [r])
    \<or> (\<exists>p i. req = DELETE_image p \<and> parseInt p = Finite i
          \<and> fst (handle e req w) = Response 200 (message_body ''Image deleted successfully'')
          \<and> images (snd (handle e req w)) = filter (\<lambda>r. image_id r \<noteq> i) (images w))"
proof (cases req)
  case (POST_upload req_file)
  show ?thesis
  proof (cases req_file)
    case None
    with POST_upload show ?thesis
      by (simp add: ImageController_uploadImage_def)
  next
    case (Some f)
    with POST_upload images_upload [of e f w] show ?thesis
      by (auto simp add: ImageController_uploadImage_def split: prod.splits sum.splits)
  qed
next
  case GET_images
  with images_getAll [of e w] show ?thesis
    by (auto simp add: ImageController_getAllImages_def split: prod.splits sum.splits)
next
  case (GET_image p)
  show ?thesis
  proof (cases "isNaN (parseInt p)")
    case True
    with GET_image show ?thesis
      by (simp add: ImageController_getImageById_def)
  next
    case False
    with GET_image images_getById [of e "parseInt p" w] show ?thesis
      by (auto simp add: ImageController_getImageById_def
            split: prod.splits sum.splits option.splits)
  qed
next
  case (DELETE_image p)
  show ?thesis
  proof (cases "isNaN (parseInt p)")
    case True
    with DELETE_image show ?thesis
      by (simp add: ImageController_deleteImage_def)
  next
    case False
    with DELETE_image images_delete [of e "parseInt p" w] show ?thesis
      by (auto simp add: ImageController_deleteImage_def split: prod.splits sum.splits)
  qed
qed

text \<open>
  C9.  Whatever the request, the \<open>image\<close> table afterwards is the table before, or the table
  before with the one row appended that a successful upload returns, or the table before
  without the rows of the id a successful delete was given.  So every row of the table
  before is afterwards in the table with all its fields as they were, unless the request is
  the delete of its id; and every row of the table afterwards was in the table before,
  unless it is the row a successful upload has just returned.
\<close>

theorem records_never_mutated:
  "(images (snd (handle e req w)) = images w
    \<or> (\<exists>f r. req = POST_upload (Some f)
          \<and> fst (handle e req w) = Response 201 (message_image_body ''Upload successful'' r)
          \<and> images (snd (handle e req w)) = images w @ [r])
    \<or> (\<exists>p i. req = DELETE_image p \<and> parseInt p = Finite i
          \<and> fst (handle e req w) = Response 200 (message_body ''Image deleted successfully'')
          \<and> images (snd (handle e req w)) = filter (\<lambda>r. image_id r \<noteq> i) (images w)))
   \<and> (\<forall>r \<in> set (images w).
         r \<in> set (images (snd (handle e req w)))
         \<or> (\<exists>p. req = DELETE_image p \<and> parseInt p = Finite (image_id r)))
   \<and> (\<forall>r \<in> set (images (snd (handle e req w))).
         r \<in> set (images w)
         \<or> (\<exists>f. req = POST_upload (Some f)
               \<and> fst (handle e req w) = Response 201 (message_image_body ''Upload successful'' r)))"
proof (intro conjI ballI)
  show "images (snd (handle e req w)) = images w
    \<or> (\<exists>f r. req = POST_upload (Some f)
          \<and> fst (handle e req w) = Response 201 (message_image_body ''Upload successful'' r)
          \<and> images (snd (handle e req w)) = images w @ [r])
    \<or> (\<exists>p i. req = DELETE_image p \<and> parseInt p = Finite i
          \<and> fst (handle e req w) = Response 200 (message_body ''Image deleted successfully'')
          \<and> images (snd (handle e req w)) = filter (\<lambda>r. image_id r \<noteq> i) (images w))"
    by (rule handle_images)
next
  fix r assume "r \<in> set (images w)"
  with handle_images [of e req w]
  show "r \<in> set (images (snd (handle e req w)))
         \<or> (\<exists>p. req = DELETE_image p \<and> parseInt p = Finite (image_id r))"
    by (elim disjE exE conjE) auto
next
  fix r assume "r \<in> set (images (snd (handle e req w)))"
  with handle_images [of e req w]
  show "r \<in> set (images w)
         \<or> (\<exists>f. req = POST_upload (Some f)
               \<and> fst (handle e req w) = Response 201 (message_image_body ''Upload successful'' r))"
    by (elim disjE exE conjE) auto
qed

theorem records_never_mutated_witness:
  "second_image \<in> set (images two_world)
   \<and> parseInt ''1'' \<noteq> Finite (image_id second_image)
   \<and> fst (handle sample_env (DELETE_image ''1'') two_world) =
        Response 200 (message_body ''Image deleted successfully'')
   \<and> images (snd (handle sample_env (DELETE_image ''1'') two_world)) = [second_image]
   \<and> images (snd (handle latest_env (POST_upload (Some sample_file)) two_world)) =
        [sample_image, second_image, third_image]"
proof -
  have m: "second_image \<in> set (images two_world)"
    by (simp add: two_world_def)
  have p: "parseInt ''1'' = Finite 1"
    by (simp add: parseInt_defs)
  have q: "image_id second_image = 2"
    by (simp add: second_image_def)
  have d: "fst (ImageController_deleteImage sample_env ''1'' two_world) =
      Response 200 (message_body ''Image deleted successfully'')"
    "images (snd (ImageController_deleteImage sample_env ''1'' two_world)) = [second_image]"
    by (simp_all add: ImageController_deleteImage_def p isNaN_def svc_defs ext_defs sample_defs
          getBucket_def pop_def)
  have u: "images (snd (ImageController_uploadImage latest_env (Some sample_file) two_world)) =
        [sample_image, second_image, third_image]"
    by (simp add: ImageController_uploadImage_def svc_defs ext_defs sample_defs third_image_def
          getBucket_def fileName_of_def publicUrl_of_def Number_toString_def digit_char_def)
  show ?thesis
    using records_never_mutated [of sample_env "DELETE_image ''1''" two_world] m p q d u
    by simp
qed


section \<open>The id parameter\<close>

lemma radix_digit_10:
  "radix_digit 10 c \<longleftrightarrow> 48 \<le> (of_char c :: nat) \<and> (of_char c :: nat) \<le> 57"
  by (auto simp add: radix_digit_def digit_value_def Let_def)

lemma decimal_not_space: "radix_digit 10 c \<Longrightarrow> \<not> StrWhiteSpaceChar c"
  by (auto simp add: radix_digit_10 StrWhiteSpaceChar_def)

lemma decimal_not_sign: "radix_digit 10 c \<Longrightarrow> c \<noteq> CHR ''+'' \<and> c \<noteq> CHR ''-''"
  by (auto simp add: radix_digit_10)

lemma sign_not_space: "\<not> StrWhiteSpaceChar CHR ''+''" "\<not> StrWhiteSpaceChar CHR ''-''"
  by (simp_all add: StrWhiteSpaceChar_def)

lemma zero_is_decimal: "radix_digit 10 CHR ''0''"
  by (simp add: radix_digit_10)

lemma to_number_not_NaN: "to_number negative m \<noteq> NaN"
  by (simp add: to_number_def split: option.splits)

lemma to_number_exact:
  "m < 2 ^ 53 \<Longrightarrow> to_number negative m = Finite (if negative then - int m else int m)"
  by (simp add: to_number_def round_to_double_def)

text \<open>Leading white space does not matter.\<close>

lemma parseInt_white_space:
  "\<forall>c \<in> set ws. StrWhiteSpaceChar c \<Longrightarrow> parseInt (ws @ t) = parseInt t"
  by (simp add: parseInt_def dropWhile_append2)

lemma parseInt_minus: "parseInt (CHR ''-'' # body) = parse_magnitude True body"
  by (simp add: parseInt_def sign_not_space)

lemma parseInt_plus: "parseInt (CHR ''+'' # body) = parse_magnitude False body"
  by (simp add: parseInt_def sign_not_space)

lemma parseInt_unsigned:
  assumes "body = [] \<or>
    (\<not> StrWhiteSpaceChar (hd body) \<and> hd body \<noteq> CHR ''+'' \<and> hd body \<noteq> CHR ''-'')"
  shows "parseInt body = parse_magnitude False body"
proof (cases body)
  case Nil
  then show ?thesis by (simp add: parseInt_def)
next
  case (Cons c cs)
  with assms show ?thesis by (simp add: parseInt_def)
qed

text \<open>White space, then a sign or none, then the rest: the rest decides the magnitude.\<close>

lemma parseInt_signed:
  assumes ws: "\<forall>c \<in> set ws. StrWhiteSpaceChar c"
    and sg: "sg = [] \<or> sg = ''+'' \<or> sg = ''-''"
    and unsigned: "sg = [] \<longrightarrow> body = [] \<or>
      (\<not> StrWhiteSpaceChar (hd body) \<and> hd body \<noteq> CHR ''+'' \<and> hd body \<noteq> CHR ''-'')"
  shows "parseInt (ws @ sg @ body) = parse_magnitude (sg = ''-'') body"
proof -
  have "parseInt (ws @ sg @ body) = parseInt (sg @ body)"
    using ws by (rule parseInt_white_space)
  also have "\<dots> = parse_magnitude (sg = ''-'') body"
    using sg
  proof (elim disjE)
    assume "sg = []"
    with unsigned show ?thesis by (simp add: parseInt_unsigned)
  next
    assume "sg = ''+''"
    then show ?thesis by (simp add: parseInt_plus)
  next
    assume "sg = ''-''"
    then show ?thesis by (simp add: parseInt_minus)
  qed
  finally show ?thesis .
qed

text \<open>A run of decimal digits that does not open with the radix prefix.\<close>

lemma magnitude_decimal:
  assumes ne: "ds \<noteq> []" and dig: "\<forall>c \<in> set ds. radix_digit 10 c"
    and rest: "rest = [] \<or> \<not> radix_digit 10 (hd rest)"
    and nohex: "take 2 (ds @ rest) \<noteq> ''0x'' \<and> take 2 (ds @ rest) \<noteq> ''0X''"
  shows "parse_magnitude negative (ds @ rest) = to_number negative (radix_value 10 ds)"
proof -
  have Z: "takeWhile (radix_digit 10) (ds @ rest) = ds"
  proof -
    have "takeWhile (radix_digit 10) rest = []"
      using rest by (cases rest) auto
    with dig show ?thesis by (simp add: takeWhile_append2)
  qed
  have strip: "(2 \<le> length (ds @ rest)
      \<and> (take 2 (ds @ rest) = ''0x'' \<or> take 2 (ds @ rest) = ''0X'')) = False"
    using nohex by blast
  show ?thesis
    by (simp only: parse_magnitude_def Let_def strip if_False Z) (simp add: ne)
qed

text \<open>The radix prefix and a run of hexadecimal digits.\<close>

lemma magnitude_hex:
  assumes px: "px = ''0x'' \<or> px = ''0X''"
    and ne: "hs \<noteq> []" and dig: "\<forall>c \<in> set hs. radix_digit 16 c"
    and rest: "rest = [] \<or> \<not> radix_digit 16 (hd rest)"
  shows "parse_magnitude negative (px @ hs @ rest) = to_number negative (radix_value 16 hs)"
proof -
  have Z: "takeWhile (radix_digit 16) (hs @ rest) = hs"
  proof -
    have "takeWhile (radix_digit 16) rest = []"
      using rest by (cases rest) auto
    with dig show ?thesis by (simp add: takeWhile_append2)
  qed
  have strip: "(2 \<le> length (px @ hs @ rest)
      \<and> (take 2 (px @ hs @ rest) = ''0x'' \<or> take 2 (px @ hs @ rest) = ''0X'')) = True"
    using px by auto
  have dr: "drop 2 (px @ hs @ rest) = hs @ rest"
    using px by auto
  show ?thesis
    by (simp only: parse_magnitude_def Let_def strip if_True dr Z) (simp add: ne)
qed

text \<open>No digit where the number should start.\<close>

lemma magnitude_no_digit:
  assumes "body = [] \<or> \<not> radix_digit 10 (hd body)"
  shows "parse_magnitude negative body = NaN"
proof (cases body)
  case Nil
  then show ?thesis by (simp add: parse_magnitude_def)
next
  case (Cons c cs)
  with assms have c: "\<not> radix_digit 10 c" by simp
  with zero_is_decimal have "c \<noteq> CHR ''0''" by auto
  then have strip: "(2 \<le> length body \<and> (take 2 body = ''0x'' \<or> take 2 body = ''0X'')) = False"
    using Cons by (cases cs) auto
  have Z: "takeWhile (radix_digit 10) body = []"
    using Cons c by simp
  show ?thesis
    by (simp only: parse_magnitude_def Let_def strip if_False Z) simp
qed

lemma magnitude_bare_prefix:
  assumes px: "px = ''0x'' \<or> px = ''0X''"
    and rest: "rest = [] \<or> \<not> radix_digit 16 (hd rest)"
  shows "parse_magnitude negative (px @ rest) = NaN"
proof -
  have Z: "takeWhile (radix_digit 16) rest = []"
    using rest by (cases rest) auto
  have strip: "(2 \<le> length (px @ rest)
      \<and> (take 2 (px @ rest) = ''0x'' \<or> take 2 (px @ rest) = ''0X'')) = True"
    using px by auto
  have dr: "drop 2 (px @ rest) = rest"
    using px by auto
  show ?thesis
    by (simp only: parse_magnitude_def Let_def strip if_True dr Z) simp
qed

lemma decimal_digits_no_radix_prefix:
  assumes "\<forall>c \<in> set ds. radix_digit 10 c"
  shows "take 2 ds \<noteq> ''0x'' \<and> take 2 ds \<noteq> ''0X''"
proof -
  have x: "\<not> radix_digit 10 CHR ''x''" "\<not> radix_digit 10 CHR ''X''"
    by (simp_all add: radix_digit_10)
  have "CHR ''x'' \<notin> set (take 2 ds)" "CHR ''X'' \<notin> set (take 2 ds)"
    using assms x by (auto dest: in_set_takeD)
  then show ?thesis by auto
qed

text \<open>What the controller does with the parsed number.\<close>

lemma getImageById_400:
  "fst (ImageController_getImageById e p w) = Response 400 (error_body ''Invalid image ID'')
   \<longleftrightarrow> parseInt p = NaN"
  by (auto simp add: ImageController_getImageById_def isNaN_def Let_def
        split: option.splits prod.splits sum.splits)

lemma deleteImage_400:
  "fst (ImageController_deleteImage e p w) = Response 400 (error_body ''Invalid image ID'')
   \<longleftrightarrow> parseInt p = NaN"
  by (auto simp add: ImageController_deleteImage_def isNaN_def Let_def
        split: option.splits prod.splits sum.splits)

lemma same_number_same_treatment:
  "parseInt p = parseInt q \<Longrightarrow>
   ImageController_getImageById e p w = ImageController_getImageById e q w
   \<and> ImageController_deleteImage e p w = ImageController_deleteImage e q w"
  by (simp add: ImageController_getImageById_def ImageController_deleteImage_def)

lemma decimal_parameter:
  assumes ws: "\<forall>c \<in> set ws. StrWhiteSpaceChar c"
    and sg: "sg = [] \<or> sg = ''+'' \<or> sg = ''-''"
    and ne: "ds \<noteq> []" and dig: "\<forall>c \<in> set ds. radix_digit 10 c"
    and rest: "rest = [] \<or> \<not> radix_digit 10 (hd rest)"
    and nohex: "take 2 (ds @ rest) \<noteq> ''0x'' \<and> take 2 (ds @ rest) \<noteq> ''0X''"
  shows "parseInt (ws @ sg @ ds @ rest) = to_number (sg = ''-'') (radix_value 10 ds)"
    and "parseInt (sg @ ds) = to_number (sg = ''-'') (radix_value 10 ds)"
proof -
  from ne dig have d: "radix_digit 10 (hd ds)" by (cases ds) auto
  have u: "sg = [] \<longrightarrow> ds @ rest = [] \<or>
      (\<not> StrWhiteSpaceChar (hd (ds @ rest)) \<and> hd (ds @ rest) \<noteq> CHR ''+''
       \<and> hd (ds @ rest) \<noteq> CHR ''-'')"
    using ne decimal_not_space [OF d] decimal_not_sign [OF d] by simp
  have "parseInt (ws @ sg @ ds @ rest) = parse_magnitude (sg = ''-'') (ds @ rest)"
    using ws sg u by (rule parseInt_signed)
  also have "\<dots> = to_number (sg = ''-'') (radix_value 10 ds)"
    using ne dig rest nohex by (rule magnitude_decimal)
  finally show "parseInt (ws @ sg @ ds @ rest) = to_number (sg = ''-'') (radix_value 10 ds)" .
  have u': "sg = [] \<longrightarrow> ds = [] \<or>
      (\<not> StrWhiteSpaceChar (hd ds) \<and> hd ds \<noteq> CHR ''+'' \<and> hd ds \<noteq> CHR ''-'')"
    using decimal_not_space [OF d] decimal_not_sign [OF d] by simp
  have a: "parseInt ([] @ sg @ ds) = parse_magnitude (sg = ''-'') ds"
    using sg u' by (intro parseInt_signed) simp_all
  have b: "parse_magnitude (sg = ''-'') (ds @ []) = to_number (sg = ''-'') (radix_value 10 ds)"
    using ne dig decimal_digits_no_radix_prefix [OF dig] by (intro magnitude_decimal) simp_all
  from a b show "parseInt (sg @ ds) = to_number (sg = ''-'') (radix_value 10 ds)"
    by simp
qed

lemma hex_parameter:
  assumes ws: "\<forall>c \<in> set ws. StrWhiteSpaceChar c"
    and sg: "sg = [] \<or> sg = ''+'' \<or> sg = ''-''"
    and px: "px = ''0x'' \<or> px = ''0X''"
    and ne: "hs \<noteq> []" and dig: "\<forall>c \<in> set hs. radix_digit 16 c"
    and rest: "rest = [] \<or> \<not> radix_digit 16 (hd rest)"
  shows "parseInt (ws @ sg @ px @ hs @ rest) = to_number (sg = ''-'') (radix_value 16 hs)"
proof -
  from px have z: "hd (px @ hs @ rest) = CHR ''0''" by auto
  have u: "sg = [] \<longrightarrow> px @ hs @ rest = [] \<or>
      (\<not> StrWhiteSpaceChar (hd (px @ hs @ rest)) \<and> hd (px @ hs @ rest) \<noteq> CHR ''+''
       \<and> hd (px @ hs @ rest) \<noteq> CHR ''-'')"
    using decimal_not_space [OF zero_is_decimal] by (simp only: z) simp
  have "parseInt (ws @ sg @ px @ hs @ rest) = parse_magnitude (sg = ''-'') (px @ hs @ rest)"
    using ws sg u by (rule parseInt_signed)
  also have "\<dots> = to_number (sg = ''-'') (radix_value 16 hs)"
    using px ne dig rest by (rule magnitude_hex)
  finally show ?thesis .
qed

lemma no_digit_parameter:
  assumes ws: "\<forall>c \<in> set ws. StrWhiteSpaceChar c"
    and sg: "sg = [] \<or> sg = ''+'' \<or> sg = ''-''"
    and body: "body = [] \<or> (\<not> radix_digit 10 (hd body) \<and>
      (sg = [] \<longrightarrow> \<not> StrWhiteSpaceChar (hd body) \<and> hd body \<noteq> CHR ''+''
         \<and> hd body \<noteq> CHR ''-''))"
  shows "parseInt (ws @ sg @ body) = NaN"
proof -
  have u: "sg = [] \<longrightarrow> body = [] \<or>
      (\<not> StrWhiteSpaceChar (hd body) \<and> hd body \<noteq> CHR ''+'' \<and> hd body \<noteq> CHR ''-'')"
    using body by blast
  have "parseInt (ws @ sg @ body) = parse_magnitude (sg = ''-'') body"
    using ws sg u by (rule parseInt_signed)
  also have "\<dots> = NaN"
    using body by (intro magnitude_no_digit) blast
  finally show ?thesis .
qed

lemma bare_prefix_parameter:
  assumes ws: "\<forall>c \<in> set ws. StrWhiteSpaceChar c"
    and sg: "sg = [] \<or> sg = ''+'' \<or> sg = ''-''"
    and px: "px = ''0x'' \<or> px = ''0X''"
    and rest: "rest = [] \<or> \<not> radix_digit 16 (hd rest)"
  shows "parseInt (ws @ sg @ px @ rest) = NaN"
proof -
  from px have z: "hd (px @ rest) = CHR ''0''" by auto
  have u: "sg = [] \<longrightarrow> px @ rest = [] \<or>
      (\<not> StrWhiteSpaceChar (hd (px @ rest)) \<and> hd (px @ rest) \<noteq> CHR ''+''
       \<and> hd (px @ rest) \<noteq> CHR ''-'')"
    using decimal_not_space [OF zero_is_decimal] by (simp only: z) simp
  have "parseInt (ws @ sg @ px @ rest) = parse_magnitude (sg = ''-'') (px @ rest)"
    using ws sg u by (rule parseInt_signed)
  also have "\<dots> = NaN"
    using px rest by (rule magnitude_bare_prefix)
  finally show ?thesis .
qed

text \<open>
  C10, as claimed, fails.  The parameter \<^verbatim>\<open>0x\<close> starts with the integer 0, which alone is
  accepted, yet it is answered 400 by both endpoints; \<^verbatim>\<open>0x1A\<close> is treated as 26 and not as
  its leading 0; and \<^verbatim>\<open>9007199254740993\<close> is treated as 9007199254740992, the nearest
  double, and so handled exactly as that other id.
\<close>

theorem id_parameter_counterexample:
  "parseInt ''0'' = Finite 0
   \<and> fst (ImageController_getImageById sample_env ''0x'' stored_world) =
        Response 400 (error_body ''Invalid image ID'')
   \<and> fst (ImageController_deleteImage sample_env ''0x'' stored_world) =
        Response 400 (error_body ''Invalid image ID'')
   \<and> parseInt ''0x1A'' = Finite 26
   \<and> parseInt ''9007199254740993'' = Finite 9007199254740992
   \<and> ImageController_getImageById sample_env ''9007199254740993'' stored_world =
       ImageController_getImageById sample_env ''9007199254740992'' stored_world
   \<and> ImageController_deleteImage sample_env ''9007199254740993'' stored_world =
       ImageController_deleteImage sample_env ''9007199254740992'' stored_world"
proof -
  have a: "parseInt ''0'' = Finite 0" "parseInt ''0x'' = NaN" "parseInt ''0x1A'' = Finite 26"
    by (simp_all add: parseInt_defs)
  have b: "parseInt ''9007199254740993'' = Finite 9007199254740992"
    "parseInt ''9007199254740992'' = Finite 9007199254740992"
    by (simp_all add: parseInt_defs)
  show ?thesis
    using a b
    by (simp add: ImageController_getImageById_def ImageController_deleteImage_def isNaN_def)
qed

text \<open>
  C10, amended.  Lookup and delete by id read the parameter with \<^verbatim>\<open>parseInt\<close>: after any
  leading white space and a sign or none, a run of decimal digits is taken, or, after the
  prefix \<^verbatim>\<open>0x\<close> or \<^verbatim>\<open>0X\<close>, a run of hexadecimal digits, whatever follows the run.  The
  parameter is answered 400 with the invalid-id body exactly when there is no such run: when
  nothing or no digit stands where the number should start, and when the prefix is followed
  by no hexadecimal digit.  Otherwise it is accepted and treated as the integer the digits
  spell, with its sign, rounded to the nearest double, which below \<open>2^53\<close> is the integer
  itself; a parameter with decimal digits is handled exactly as its sign and digits alone.
  So \<^verbatim>\<open>7abc\<close> is handled as \<^verbatim>\<open>7\<close> and \<^verbatim>\<open>3.9\<close> as \<^verbatim>\<open>3\<close>.
\<close>

theorem id_parameter_parse_rule:
  assumes ws: "\<forall>c \<in> set ws. StrWhiteSpaceChar c"
    and sg: "sg = [] \<or> sg = ''+'' \<or> sg = ''-''"
  shows "(fst (ImageController_getImageById e p w) = Response 400 (error_body ''Invalid image ID'')
            \<longleftrightarrow> parseInt p = NaN)
       \<and> (fst (ImageController_deleteImage e p w) = Response 400 (error_body ''Invalid image ID'')
            \<longleftrightarrow> parseInt p = NaN)
       \<and> (ds \<noteq> [] \<and> (\<forall>c \<in> set ds. radix_digit 10 c)
            \<and> (rest = [] \<or> \<not> radix_digit 10 (hd rest))
            \<and> take 2 (ds @ rest) \<noteq> ''0x'' \<and> take 2 (ds @ rest) \<noteq> ''0X'' \<longrightarrow>
          parseInt (ws @ sg @ ds @ rest) = to_number (sg = ''-'') (radix_value 10 ds)
          \<and> parseInt (ws @ sg @ ds @ rest) \<noteq> NaN
          \<and> (radix_value 10 ds < 2 ^ 53 \<longrightarrow>
               parseInt (ws @ sg @ ds @ rest) =
                 Finite (if sg = ''-'' then - int (radix_value 10 ds)
                         else int (radix_value 10 ds)))
          \<and> ImageController_getImageById e (ws @ sg @ ds @ rest) w =
              ImageController_getImageById e (sg @ ds) w
          \<and> ImageController_deleteImage e (ws @ sg @ ds @ rest) w =
              ImageController_deleteImage e (sg @ ds) w)
       \<and> ((px = ''0x'' \<or> px = ''0X'') \<and> hs \<noteq> [] \<and> (\<forall>c \<in> set hs. radix_digit 16 c)
            \<and> (rest = [] \<or> \<not> radix_digit 16 (hd rest)) \<longrightarrow>
          parseInt (ws @ sg @ px @ hs @ rest) = to_number (sg = ''-'') (radix_value 16 hs)
          \<and> parseInt (ws @ sg @ px @ hs @ rest) \<noteq> NaN
          \<and> (radix_value 16 hs < 2 ^ 53 \<longrightarrow>
               parseInt (ws @ sg @ px @ hs @ rest) =
                 Finite (if sg = ''-'' then - int (radix_value 16 hs)
                         else int (radix_value 16 hs))))
       \<and> (body = [] \<or> (\<not> radix_digit 10 (hd body) \<and>
              (sg = [] \<longrightarrow> \<not> StrWhiteSpaceChar (hd body) \<and> hd body \<noteq> CHR ''+''
                 \<and> hd body \<noteq> CHR ''-'')) \<longrightarrow>
          parseInt (ws @ sg @ body) = NaN)
       \<and> ((px = ''0x'' \<or> px = ''0X'') \<and> (rest = [] \<or> \<not> radix_digit 16 (hd rest)) \<longrightarrow>
          parseInt (ws @ sg @ px @ rest) = NaN)
       \<and> parseInt ''7abc'' = Finite 7 \<and> parseInt ''3.9'' = Finite 3
       \<and> ImageController_getImageById e ''7abc'' w = ImageController_getImageById e ''7'' w
       \<and> ImageController_deleteImage e ''7abc'' w = ImageController_deleteImage e ''7'' w
       \<and> ImageController_getImageById e ''3.9'' w = ImageController_getImageById e ''3'' w
       \<and> ImageController_deleteImage e ''3.9'' w = ImageController_deleteImage e ''3'' w"
proof -
  have ex: "parseInt ''7abc'' = Finite 7" "parseInt ''3.9'' = Finite 3"
    "parseInt ''7'' = Finite 7" "parseInt ''3'' = Finite 3"
    by (simp_all add: parseInt_defs)
  have ex7: "ImageController_getImageById e ''7abc'' w = ImageController_getImageById e ''7'' w
      \<and> ImageController_deleteImage e ''7abc'' w = ImageController_deleteImage e ''7'' w"
    using ex by (intro same_number_same_treatment) simp
  have ex3: "ImageController_getImageById e ''3.9'' w = ImageController_getImageById e ''3'' w
      \<and> ImageController_deleteImage e ''3.9'' w = ImageController_deleteImage e ''3'' w"
    using ex by (intro same_number_same_treatment) simp
  have dec: "parseInt (ws @ sg @ ds @ rest) = to_number (sg = ''-'') (radix_value 10 ds)
          \<and> parseInt (ws @ sg @ ds @ rest) \<noteq> NaN
          \<and> (radix_value 10 ds < 2 ^ 53 \<longrightarrow>
               parseInt (ws @ sg @ ds @ rest) =
                 Finite (if sg = ''-'' then - int (radix_value 10 ds)
                         else int (radix_value 10 ds)))
          \<and> ImageController_getImageById e (ws @ sg @ ds @ rest) w =
              ImageController_getImageById e (sg @ ds) w
          \<and> ImageController_deleteImage e (ws @ sg @ ds @ rest) w =
              ImageController_deleteImage e (sg @ ds) w"
    if h: "ds \<noteq> [] \<and> (\<forall>c \<in> set ds. radix_digit 10 c)
            \<and> (rest = [] \<or> \<not> radix_digit 10 (hd rest))
            \<and> take 2 (ds @ rest) \<noteq> ''0x'' \<and> take 2 (ds @ rest) \<noteq> ''0X''"
  proof -
    from h have ne: "ds \<noteq> []" and dig: "\<forall>c \<in> set ds. radix_digit 10 c"
      and r: "rest = [] \<or> \<not> radix_digit 10 (hd rest)"
      and nohex: "take 2 (ds @ rest) \<noteq> ''0x'' \<and> take 2 (ds @ rest) \<noteq> ''0X''"
      by blast+
    have 1: "parseInt (ws @ sg @ ds @ rest) = to_number (sg = ''-'') (radix_value 10 ds)"
      using ws sg ne dig r nohex by (rule decimal_parameter(1))
    have 2: "parseInt (sg @ ds) = to_number (sg = ''-'') (radix_value 10 ds)"
      using ws sg ne dig r nohex by (rule decimal_parameter(2))
    from 1 2 have "parseInt (ws @ sg @ ds @ rest) = parseInt (sg @ ds)" by simp
    then have 3: "ImageController_getImageById e (ws @ sg @ ds @ rest) w =
              ImageController_getImageById e (sg @ ds) w
          \<and> ImageController_deleteImage e (ws @ sg @ ds @ rest) w =
              ImageController_deleteImage e (sg @ ds) w"
      by (rule same_number_same_treatment)
    from 1 3 show ?thesis
      by (simp add: to_number_not_NaN to_number_exact)
  qed
  have hex: "parseInt (ws @ sg @ px @ hs @ rest) = to_number (sg = ''-'') (radix_value 16 hs)
          \<and> parseInt (ws @ sg @ px @ hs @ rest) \<noteq> NaN
          \<and> (radix_value 16 hs < 2 ^ 53 \<longrightarrow>
               parseInt (ws @ sg @ px @ hs @ rest) =
                 Finite (if sg = ''-'' then - int (radix_value 16 hs)
                         else int (radix_value 16 hs)))"
    if h: "(px = ''0x'' \<or> px = ''0X'') \<and> hs \<noteq> [] \<and> (\<forall>c \<in> set hs. radix_digit 16 c)
            \<and> (rest = [] \<or> \<not> radix_digit 16 (hd rest))"
  proof -
    from h have px: "px = ''0x'' \<or> px = ''0X''" and ne: "hs \<noteq> []"
      and dig: "\<forall>c \<in> set hs. radix_digit 16 c"
      and r: "rest = [] \<or> \<not> radix_digit 16 (hd rest)"
      by blast+
    have "parseInt (ws @ sg @ px @ hs @ rest) = to_number (sg = ''-'') (radix_value 16 hs)"
      using ws sg px ne dig r by (rule hex_parameter)
    then show ?thesis
      by (simp add: to_number_not_NaN to_number_exact)
  qed
  have nod: "parseInt (ws @ sg @ body) = NaN"
    if "body = [] \<or> (\<not> radix_digit 10 (hd body) \<and>
              (sg = [] \<longrightarrow> \<not> StrWhiteSpaceChar (hd body) \<and> hd body \<noteq> CHR ''+''
                 \<and> hd body \<noteq> CHR ''-''))"
    using ws sg that by (rule no_digit_parameter)
  have bare: "parseInt (ws @ sg @ px @ rest) = NaN"
    if "(px = ''0x'' \<or> px = ''0X'') \<and> (rest = [] \<or> \<not> radix_digit 16 (hd rest))"
    using ws sg that by (intro bare_prefix_parameter) blast+
  show ?thesis
    using getImageById_400 [of e p w] deleteImage_400 [of e p w] dec hex nod bare ex(1,2) ex7 ex3
    by blast
qed

theorem id_parameter_parse_witness:
  "StrWhiteSpaceChar CHR '' '' \<and> radix_digit 10 CHR ''1'' \<and> radix_digit 10 CHR ''2''
   \<and> \<not> radix_digit 10 (hd ''px'')
   \<and> take 2 (''12'' @ ''px'') \<noteq> ''0x'' \<and> take 2 (''12'' @ ''px'') \<noteq> ''0X''
   \<and> parseInt '' -12px'' = Finite (- 12)
   \<and> fst (ImageController_getImageById sample_env '' -12px'' stored_world) =
        Response 404 (error_body ''Image not found'')
   \<and> radix_digit 16 CHR ''1'' \<and> radix_digit 16 CHR ''A'' \<and> \<not> radix_digit 16 (hd ''px'')
   \<and> parseInt '' -0x1Apx'' = Finite (- 26)
   \<and> \<not> radix_digit 10 (hd ''abc'')
   \<and> parseInt '' -abc'' = NaN
   \<and> fst (ImageController_deleteImage sample_env '' -abc'' stored_world) =
        Response 400 (error_body ''Invalid image ID'')
   \<and> parseInt '' -0xpx'' = NaN
   \<and> fst (ImageController_getImageById sample_env ''1abc'' stored_world) =
        Response 200 (image_body sample_image)"
proof -
  have ws: "\<forall>c \<in> set '' ''. StrWhiteSpaceChar c"
    by (simp add: StrWhiteSpaceChar_def)
  have sg: "''-'' = [] \<or> ''-'' = ''+'' \<or> ''-'' = ''-''"
    by simp
  have d: "radix_digit 10 CHR ''1''" "radix_digit 10 CHR ''2''" "\<not> radix_digit 10 (hd ''px'')"
    "radix_digit 16 CHR ''1''" "radix_digit 16 CHR ''A''" "\<not> radix_digit 16 (hd ''px'')"
    "\<not> radix_digit 10 (hd ''abc'')"
    by (simp_all add: radix_digit_def digit_value_def)
  have v: "radix_value 10 ''12'' = 12" "radix_value 16 ''1A'' = 26"
    by (simp_all add: radix_value_def digit_value_def)
  have g: "fst (ImageController_getImageById sample_env '' -12px'' stored_world) =
        Response 404 (error_body ''Image not found'')"
    "fst (ImageController_getImageById sample_env ''1abc'' stored_world) =
        Response 200 (image_body sample_image)"
    by (simp_all add: ImageController_getImageById_def parseInt_defs svc_defs ext_defs sample_defs)
  show ?thesis
    using id_parameter_parse_rule
            [OF ws sg, where ds = "''12''" and rest = "''px''" and px = "''0x''"
               and hs = "''1A''" and body = "''abc''" and e = sample_env
               and p = "'' -abc''" and w = stored_world]
      d v g
    by (simp add: StrWhiteSpaceChar_def to_number_def round_to_double_def)
qed


end
